theory Spec2Isabelle
  imports Complex_Main "HOL-Library.Word" "HOL-Library.AList"
begin

unbundle bit_operations_syntax

section \<open>Numbers\<close>

text \<open>
  The simulation computes on JavaScript numbers. Grid coordinates, entity ids and item
  counts are integers and are modelled as \<open>int\<close> or \<open>nat\<close> (the slot numbers of the save
  manager, which come from stored text, are treated in its section); power, energy and
  progress values are modelled as \<open>real\<close>, so the rounding of the floating-point operations
  and of the 32-bit component arrays, infinities and \<^verbatim>\<open>NaN\<close> are not part of the model (a
  division by zero, which the source can only reach through a recipe of duration 0, is 0
  in the model). The remainder operator \<^verbatim>\<open>%\<close> of the source truncates towards zero (the
  result has the sign of the dividend).
\<close>

definition js_rem :: "int \<Rightarrow> int \<Rightarrow> int" where
  "js_rem a b = sgn a * (\<bar>a\<bar> mod \<bar>b\<bar>)"

section \<open>Constants\<close>

definition CHUNK_SIZE :: int where
  "CHUNK_SIZE = 32"

definition MAX_SAVE_SLOTS :: int where
  "MAX_SAVE_SLOTS = 5"

definition SAVE_VERSION :: int where
  "SAVE_VERSION = 1"

definition ALIEN_ENERGY_BONUS :: real where
  "ALIEN_ENERGY_BONUS = 3 / 10"

definition ALIEN_ENERGY_BASE_MW :: real where
  "ALIEN_ENERGY_BASE_MW = 500"

section \<open>GridManager\<close>

record GridPosition =
  pos_x :: int
  pos_y :: int
  pos_z :: int

record ChunkCoord =
  cx :: int
  cz :: int

record GridCell =
  entityId :: nat
  buildingType :: string
  rotation :: nat

text \<open>
  A floor of a chunk is a JavaScript array of cells or \<^verbatim>\<open>null\<close>. Reading past the end gives
  \<^verbatim>\<open>undefined\<close>, which \<^verbatim>\<open>getCell\<close> turns into \<^verbatim>\<open>null\<close>; writing past the end extends the
  array. \<open>None\<close> stands for \<^verbatim>\<open>null\<close> and for the holes of an extended array alike.
\<close>

definition array_get :: "'a option list \<Rightarrow> nat \<Rightarrow> 'a option" where
  "array_get xs i = (if i < length xs then xs ! i else None)"

definition array_set :: "'a option list \<Rightarrow> nat \<Rightarrow> 'a option \<Rightarrow> 'a option list" where
  "array_set xs i v =
     (if i < length xs then xs[i := v] else xs @ replicate (i - length xs) None @ [v])"

record Chunk =
  chunk_cx :: int
  chunk_cz :: int
  cells :: "int \<rightharpoonup> GridCell option list"

definition new_Chunk :: "int \<Rightarrow> int \<Rightarrow> Chunk" where
  "new_Chunk x z = \<lparr>chunk_cx = x, chunk_cz = z, cells = Map.empty\<rparr>"

definition getFloor :: "Chunk \<Rightarrow> int \<Rightarrow> GridCell option list \<times> Chunk" where
  "getFloor c y =
     (case cells c y of
        None \<Rightarrow>
          (let fl = replicate (nat (CHUNK_SIZE * CHUNK_SIZE)) None
           in (fl, c\<lparr>cells := (cells c)(y \<mapsto> fl)\<rparr>))
      | Some fl \<Rightarrow> (fl, c))"

definition localIndex :: "int \<Rightarrow> int \<Rightarrow> int" where
  "localIndex localX localZ = localZ * CHUNK_SIZE + localX"

text \<open>
  \<^verbatim>\<open>getCell\<close> and \<^verbatim>\<open>setCell\<close> are only called with the local coordinates computed by
  \<^verbatim>\<open>positionToLocal\<close>, which are never negative, so the array index is read as a \<open>nat\<close>.
\<close>

definition getCell :: "Chunk \<Rightarrow> int \<Rightarrow> int \<Rightarrow> int \<Rightarrow> GridCell option" where
  "getCell c localX localZ y =
     (case cells c y of
        None \<Rightarrow> None
      | Some fl \<Rightarrow> array_get fl (nat (localIndex localX localZ)))"

definition setCell :: "Chunk \<Rightarrow> int \<Rightarrow> int \<Rightarrow> int \<Rightarrow> GridCell option \<Rightarrow> Chunk" where
  "setCell c localX localZ y cell =
     (case getFloor c y of
        (fl, c') \<Rightarrow>
          c'\<lparr>cells := (cells c')(y \<mapsto> array_set fl (nat (localIndex localX localZ)) cell)\<rparr>)"

text \<open>
  The chunk map is keyed by the string \<^verbatim>\<open>cx,cz\<close>, which determines the pair of integers;
  the model keys it by the pair.
\<close>

record GridManager =
  chunks :: "(int \<times> int) \<rightharpoonup> Chunk"

definition positionToChunk :: "GridPosition \<Rightarrow> ChunkCoord" where
  "positionToChunk pos =
     \<lparr>cx = \<lfloor>real_of_int (pos_x pos) / real_of_int CHUNK_SIZE\<rfloor>,
      cz = \<lfloor>real_of_int (pos_z pos) / real_of_int CHUNK_SIZE\<rfloor>\<rparr>"

definition normalizeLocal :: "int \<Rightarrow> int" where
  "normalizeLocal l = (if l < 0 then l + CHUNK_SIZE else l)"

definition positionToLocal :: "GridPosition \<Rightarrow> int \<times> int" where
  "positionToLocal pos =
     (let localX = js_rem (pos_x pos) CHUNK_SIZE;
          localZ = js_rem (pos_z pos) CHUNK_SIZE
      in (normalizeLocal localX, normalizeLocal localZ))"

definition chunkKey :: "int \<Rightarrow> int \<Rightarrow> int \<times> int" where
  "chunkKey x z = (x, z)"

definition getChunk :: "GridManager \<Rightarrow> int \<Rightarrow> int \<Rightarrow> Chunk \<times> GridManager" where
  "getChunk g x z =
     (case chunks g (chunkKey x z) of
        None \<Rightarrow> (new_Chunk x z, g\<lparr>chunks := (chunks g)(chunkKey x z \<mapsto> new_Chunk x z)\<rparr>)
      | Some chunk \<Rightarrow> (chunk, g))"

definition getCellAt :: "GridManager \<Rightarrow> GridPosition \<Rightarrow> GridCell option" where
  "getCellAt g pos =
     (let cc = positionToChunk pos; (localX, localZ) = positionToLocal pos
      in case chunks g (chunkKey (cx cc) (cz cc)) of
           None \<Rightarrow> None
         | Some chunk \<Rightarrow> getCell chunk localX localZ (pos_y pos))"

definition isOccupied :: "GridManager \<Rightarrow> GridPosition \<Rightarrow> bool" where
  "isOccupied g pos =
     (let cc = positionToChunk pos; (localX, localZ) = positionToLocal pos
      in case chunks g (chunkKey (cx cc) (cz cc)) of
           None \<Rightarrow> False
         | Some chunk \<Rightarrow> getCell chunk localX localZ (pos_y pos) \<noteq> None)"

definition offsetPos :: "GridPosition \<Rightarrow> int \<Rightarrow> int \<Rightarrow> GridPosition" where
  "offsetPos pos dx dz = \<lparr>pos_x = pos_x pos + dx, pos_y = pos_y pos, pos_z = pos_z pos + dz\<rparr>"

text \<open>
  The two nested counting loops of \<^verbatim>\<open>canPlace\<close> return \<^verbatim>\<open>false\<close> at the first occupied cell;
  \<open>[0..n - 1]\<close> lists the values \<open>0 \<le> d < n\<close> the loop variable takes.
\<close>

definition canPlace :: "GridManager \<Rightarrow> GridPosition \<Rightarrow> int \<Rightarrow> int \<Rightarrow> bool" where
  "canPlace g pos sizeX sizeZ =
     list_all (\<lambda>dx. list_all (\<lambda>dz. \<not> isOccupied g (offsetPos pos dx dz)) [0..sizeZ - 1])
       [0..sizeX - 1]"

definition writeCell :: "GridManager \<Rightarrow> GridPosition \<Rightarrow> int \<Rightarrow> GridCell \<Rightarrow> GridManager" where
  "writeCell g cellPos y cell =
     (let cc = positionToChunk cellPos; (localX, localZ) = positionToLocal cellPos
      in case getChunk g (cx cc) (cz cc) of
           (chunk, g') \<Rightarrow>
             g'\<lparr>chunks := (chunks g')(chunkKey (cx cc) (cz cc) \<mapsto>
                   setCell chunk localX localZ y (Some cell))\<rparr>)"

definition placeEntity ::
  "GridManager \<Rightarrow> GridPosition \<Rightarrow> int \<Rightarrow> int \<Rightarrow> nat \<Rightarrow> string \<Rightarrow> nat \<Rightarrow> bool \<times> GridManager" where
  "placeEntity g pos sizeX sizeZ eid btype rot =
     (if \<not> canPlace g pos sizeX sizeZ then (False, g)
      else (True,
        fold (\<lambda>dx g1.
            fold (\<lambda>dz g2.
                writeCell g2 (offsetPos pos dx dz) (pos_y pos)
                  \<lparr>entityId = eid, buildingType = btype, rotation = rot\<rparr>)
              [0..sizeZ - 1] g1)
          [0..sizeX - 1] g))"

definition emptyGrid :: GridManager where
  "emptyGrid = \<lparr>chunks = Map.empty\<rparr>"

definition origin :: GridPosition where
  "origin = \<lparr>pos_x = 0, pos_y = 0, pos_z = 0\<rparr>"

section \<open>Entity components\<close>

text \<open>
  The components are structures of arrays indexed by entity id; a query lists the ids of
  the entities that hold a component. The record below holds the arrays and the query
  results the two systems read and write.
\<close>

record World =
  generatorQuery :: "nat list"
  alienQuery :: "nat list"
  consumerQuery :: "nat list"
  storageQuery :: "nat list"
  activeProducerQuery :: "nat list"
  PowerGenerator_networkId :: "nat \<Rightarrow> nat"
  PowerGenerator_currentPowerMW :: "nat \<Rightarrow> real"
  AlienExtractor_networkId :: "nat \<Rightarrow> nat"
  PowerConsumer_networkId :: "nat \<Rightarrow> nat"
  PowerConsumer_basePowerMW :: "nat \<Rightarrow> real"
  PowerConsumer_currentPowerMW :: "nat \<Rightarrow> real"
  PowerStorage_networkId :: "nat \<Rightarrow> nat"
  PowerStorage_capacity :: "nat \<Rightarrow> real"
  PowerStorage_stored :: "nat \<Rightarrow> real"
  Producer_recipeId :: "nat \<Rightarrow> nat"
  Producer_progress :: "nat \<Rightarrow> real"
  Producer_speedMultiplier :: "nat \<Rightarrow> real"
  Producer_powerShards :: "nat \<Rightarrow> nat"
  Producer_isActive :: "nat \<Rightarrow> nat"

section \<open>PowerGridSystem\<close>

record PowerNetwork =
  net_id :: nat
  totalProduction :: real
  totalConsumption :: real
  totalStorage :: real
  storedEnergy :: real
  alienExtractorCount :: nat
  effectiveProduction :: real
  isBlackedOut :: bool
  entities :: "nat set"

text \<open>
  The networks are held in a JavaScript \<^verbatim>\<open>Map\<close>, which iterates in insertion order: an
  association list, read with \<open>map_of\<close> and written with \<open>AList.update\<close> (which replaces
  the entry of a key in place and appends a new key at the end).
\<close>

record PowerGridSystem =
  networks :: "(nat \<times> PowerNetwork) list"
  nextNetworkId :: nat

definition new_PowerGridSystem :: PowerGridSystem where
  "new_PowerGridSystem = \<lparr>networks = [], nextNetworkId = 1\<rparr>"

definition createNetwork :: "PowerGridSystem \<Rightarrow> nat \<times> PowerGridSystem" where
  "createNetwork s =
     (let i = nextNetworkId s
      in (i, \<lparr>networks = AList.update i
                  \<lparr>net_id = i, totalProduction = 0, totalConsumption = 0, totalStorage = 0,
                   storedEnergy = 0, alienExtractorCount = 0, effectiveProduction = 0,
                   isBlackedOut = False, entities = {}\<rparr> (networks s),
               nextNetworkId = i + 1\<rparr>))"

definition getNetwork :: "PowerGridSystem \<Rightarrow> nat \<Rightarrow> PowerNetwork option" where
  "getNetwork s i = map_of (networks s) i"

definition resetStats :: "(nat \<times> PowerNetwork) list \<Rightarrow> (nat \<times> PowerNetwork) list" where
  "resetStats nets =
     map (\<lambda>(k, net). (k, net\<lparr>totalProduction := 0, totalConsumption := 0, totalStorage := 0,
                             alienExtractorCount := 0\<rparr>)) nets"

definition tallyGenerator ::
  "World \<Rightarrow> nat \<Rightarrow> (nat \<times> PowerNetwork) list \<Rightarrow> (nat \<times> PowerNetwork) list" where
  "tallyGenerator w eid nets =
     (let netId = PowerGenerator_networkId w eid
      in case map_of nets netId of
           None \<Rightarrow> nets
         | Some net \<Rightarrow>
             AList.update netId
               (net\<lparr>totalProduction := totalProduction net + PowerGenerator_currentPowerMW w eid\<rparr>)
               nets)"

definition tallyAlien ::
  "World \<Rightarrow> nat \<Rightarrow> (nat \<times> PowerNetwork) list \<Rightarrow> (nat \<times> PowerNetwork) list" where
  "tallyAlien w eid nets =
     (let netId = AlienExtractor_networkId w eid
      in case map_of nets netId of
           None \<Rightarrow> nets
         | Some net \<Rightarrow>
             AList.update netId
               (net\<lparr>alienExtractorCount := alienExtractorCount net + 1,
                    totalProduction := totalProduction net + ALIEN_ENERGY_BASE_MW\<rparr>)
               nets)"

definition tallyConsumer ::
  "World \<Rightarrow> nat \<Rightarrow> (nat \<times> PowerNetwork) list \<Rightarrow> (nat \<times> PowerNetwork) list" where
  "tallyConsumer w eid nets =
     (let netId = PowerConsumer_networkId w eid
      in case map_of nets netId of
           None \<Rightarrow> nets
         | Some net \<Rightarrow>
             AList.update netId
               (net\<lparr>totalConsumption := totalConsumption net + PowerConsumer_currentPowerMW w eid\<rparr>)
               nets)"

definition tallyStorage ::
  "World \<Rightarrow> nat \<Rightarrow> (nat \<times> PowerNetwork) list \<Rightarrow> (nat \<times> PowerNetwork) list" where
  "tallyStorage w eid nets =
     (let netId = PowerStorage_networkId w eid
      in case map_of nets netId of
           None \<Rightarrow> nets
         | Some net \<Rightarrow>
             AList.update netId
               (net\<lparr>totalStorage := totalStorage net + PowerStorage_capacity w eid,
                    storedEnergy := storedEnergy net + PowerStorage_stored w eid\<rparr>)
               nets)"

text \<open>
  The first half of \<^verbatim>\<open>update\<close>: the statistics are reset (the stored energy is not among
  the fields reset) and the four kinds of entity are tallied into their networks.
\<close>

definition tallyNetworks :: "World \<Rightarrow> (nat \<times> PowerNetwork) list \<Rightarrow> (nat \<times> PowerNetwork) list" where
  "tallyNetworks w nets =
     fold (tallyStorage w) (storageQuery w)
       (fold (tallyConsumer w) (consumerQuery w)
         (fold (tallyAlien w) (alienQuery w)
           (fold (tallyGenerator w) (generatorQuery w) (resetStats nets))))"

text \<open>The body of the last loop of \<^verbatim>\<open>update\<close>, up to the call of \<^verbatim>\<open>updateStorageEntities\<close>.\<close>

definition balanceNetwork :: "real \<Rightarrow> PowerNetwork \<Rightarrow> PowerNetwork" where
  "balanceNetwork dt net =
     (let baseProduction =
            totalProduction net - real (alienExtractorCount net) * ALIEN_ENERGY_BASE_MW;
          alienBonus = baseProduction * ALIEN_ENERGY_BONUS * real (alienExtractorCount net);
          net1 = net\<lparr>effectiveProduction := totalProduction net + alienBonus\<rparr>;
          surplus = effectiveProduction net1 - totalConsumption net1
      in if surplus < 0 then
           (let deficitMWh = \<bar>surplus\<bar> * (dt / 3600)
            in if storedEnergy net1 \<ge> deficitMWh
               then net1\<lparr>storedEnergy := storedEnergy net1 - deficitMWh, isBlackedOut := False\<rparr>
               else net1\<lparr>storedEnergy := 0, isBlackedOut := True\<rparr>)
         else
           (let surplusMWh = surplus * (dt / 3600)
            in net1\<lparr>isBlackedOut := False,
                    storedEnergy := min (storedEnergy net1 + surplusMWh) (totalStorage net1)\<rparr>))"

definition updateStorageEntities :: "World \<Rightarrow> PowerNetwork \<Rightarrow> World" where
  "updateStorageEntities w net =
     (if totalStorage net = 0 then w
      else fold (\<lambda>eid w1.
               if PowerStorage_networkId w1 eid \<noteq> net_id net then w1
               else (let ratio = PowerStorage_capacity w1 eid / totalStorage net
                     in w1\<lparr>PowerStorage_stored :=
                            (PowerStorage_stored w1)(eid := storedEnergy net * ratio)\<rparr>))
             (storageQuery w) w)"

fun balanceAll ::
  "real \<Rightarrow> (nat \<times> PowerNetwork) list \<Rightarrow> World \<Rightarrow> (nat \<times> PowerNetwork) list \<times> World" where
  "balanceAll dt [] w = ([], w)"
| "balanceAll dt ((k, net) # rest) w =
     (let net' = balanceNetwork dt net;
          w' = updateStorageEntities w net';
          (rest', w'') = balanceAll dt rest w'
      in ((k, net') # rest', w''))"

definition PowerGridSystem_update ::
  "PowerGridSystem \<Rightarrow> World \<Rightarrow> real \<Rightarrow> PowerGridSystem \<times> World" where
  "PowerGridSystem_update s w dt =
     (let (nets, w') = balanceAll dt (tallyNetworks w (networks s)) w
      in (s\<lparr>networks := nets\<rparr>, w'))"

definition isEntityBlackedOut :: "PowerGridSystem \<Rightarrow> nat \<Rightarrow> bool" where
  "isEntityBlackedOut s networkId =
     (case map_of (networks s) networkId of
        None \<Rightarrow> False
      | Some net \<Rightarrow> isBlackedOut net)"

text \<open>
  Per-network sums over the entities of a network, and small worlds used to run the
  update on concrete inputs.
\<close>

definition genPower :: "World \<Rightarrow> nat \<Rightarrow> real" where
  "genPower w k = sum_list (map (PowerGenerator_currentPowerMW w)
                     (filter (\<lambda>e. PowerGenerator_networkId w e = k) (generatorQuery w)))"

definition alienCount :: "World \<Rightarrow> nat \<Rightarrow> nat" where
  "alienCount w k = length (filter (\<lambda>e. AlienExtractor_networkId w e = k) (alienQuery w))"

definition consPower :: "World \<Rightarrow> nat \<Rightarrow> real" where
  "consPower w k = sum_list (map (PowerConsumer_currentPowerMW w)
                     (filter (\<lambda>e. PowerConsumer_networkId w e = k) (consumerQuery w)))"

definition storageCapacity :: "World \<Rightarrow> nat \<Rightarrow> real" where
  "storageCapacity w k = sum_list (map (PowerStorage_capacity w)
                     (filter (\<lambda>e. PowerStorage_networkId w e = k) (storageQuery w)))"

definition storageCharge :: "World \<Rightarrow> nat \<Rightarrow> real" where
  "storageCharge w k = sum_list (map (PowerStorage_stored w)
                     (filter (\<lambda>e. PowerStorage_networkId w e = k) (storageQuery w)))"

definition emptyWorld :: World where
  "emptyWorld =
     \<lparr>generatorQuery = [], alienQuery = [], consumerQuery = [], storageQuery = [],
      activeProducerQuery = [],
      PowerGenerator_networkId = (\<lambda>_. 0), PowerGenerator_currentPowerMW = (\<lambda>_. 0),
      AlienExtractor_networkId = (\<lambda>_. 0),
      PowerConsumer_networkId = (\<lambda>_. 0), PowerConsumer_basePowerMW = (\<lambda>_. 0),
      PowerConsumer_currentPowerMW = (\<lambda>_. 0),
      PowerStorage_networkId = (\<lambda>_. 0), PowerStorage_capacity = (\<lambda>_. 0),
      PowerStorage_stored = (\<lambda>_. 0),
      Producer_recipeId = (\<lambda>_. 0), Producer_progress = (\<lambda>_. 0),
      Producer_speedMultiplier = (\<lambda>_. 0), Producer_powerShards = (\<lambda>_. 0),
      Producer_isActive = (\<lambda>_. 0)\<rparr>"

definition oneNetwork :: PowerGridSystem where
  "oneNetwork = snd (createNetwork new_PowerGridSystem)"

definition deficitWorld :: World where
  "deficitWorld =
     emptyWorld\<lparr>generatorQuery := [1], consumerQuery := [2],
        PowerGenerator_networkId := (\<lambda>_. 0)(1 := 1),
        PowerGenerator_currentPowerMW := (\<lambda>_. 0)(1 := 100),
        PowerConsumer_networkId := (\<lambda>_. 0)(2 := 1),
        PowerConsumer_currentPowerMW := (\<lambda>_. 0)(2 := 150)\<rparr>"

definition alienWorld :: World where
  "alienWorld =
     emptyWorld\<lparr>generatorQuery := [1, 2], alienQuery := [3, 4],
        PowerGenerator_networkId := (\<lambda>_. 0)(1 := 1, 2 := 1),
        PowerGenerator_currentPowerMW := (\<lambda>_. 0)(1 := 400, 2 := 600),
        AlienExtractor_networkId := (\<lambda>_. 0)(3 := 1, 4 := 1)\<rparr>"

definition batteryWorld :: World where
  "batteryWorld =
     emptyWorld\<lparr>consumerQuery := [2], storageQuery := [5],
        PowerConsumer_networkId := (\<lambda>_. 0)(2 := 1),
        PowerConsumer_currentPowerMW := (\<lambda>_. 0)(2 := 3600),
        PowerStorage_networkId := (\<lambda>_. 0)(5 := 1),
        PowerStorage_capacity := (\<lambda>_. 0)(5 := 100),
        PowerStorage_stored := (\<lambda>_. 0)(5 := 80)\<rparr>"

definition afterTick1 :: "PowerGridSystem \<times> World" where
  "afterTick1 = PowerGridSystem_update oneNetwork batteryWorld 1"

definition twoTicks :: "PowerGridSystem \<times> World" where
  "twoTicks =
     (let (s1, w1) = PowerGridSystem_update oneNetwork batteryWorld 1
      in PowerGridSystem_update s1 w1 1)"

section \<open>ProductionSystem\<close>

definition POWER_SHARD_bonusPerSlot :: real where
  "POWER_SHARD_bonusPerSlot = 1 / 2"

definition POWER_SHARD_maxMultiplier :: real where
  "POWER_SHARD_maxMultiplier = 5 / 2"

record RecipeItem =
  itemId :: string
  amount :: int

record RuntimeRecipe =
  recipe_id :: string
  duration :: real
  ingredients :: "RecipeItem list"
  products :: "RecipeItem list"

record MachineBuffer =
  inputSlots :: "string \<rightharpoonup> int"
  outputSlots :: "string \<rightharpoonup> int"

record ProductionSystem =
  buffers :: "nat \<rightharpoonup> MachineBuffer"
  recipes :: "nat \<rightharpoonup> RuntimeRecipe"

text \<open>\<^verbatim>\<open>slots.get(itemId) || 0\<close>: a missing entry counts as 0.\<close>

definition slotCount :: "(string \<rightharpoonup> int) \<Rightarrow> string \<Rightarrow> int" where
  "slotCount slots i = (case slots i of None \<Rightarrow> 0 | Some n \<Rightarrow> n)"

text \<open>
  The class declares \<^verbatim>\<open>getBuffer\<close> twice. In a JavaScript class body the later method
  replaces the earlier one, so every call, also the ones in \<^verbatim>\<open>processProducer\<close>,
  \<^verbatim>\<open>addToInput\<close> and \<^verbatim>\<open>takeFromOutput\<close>, runs the second declaration: it returns the
  entity's buffer when there is one, and otherwise a fresh empty buffer that is not stored
  in the map. The second component of the result tells which: only a stored buffer keeps
  what is written to it. The only statement that stores a buffer is in the first
  declaration, which never runs.
\<close>

definition getBuffer :: "ProductionSystem \<Rightarrow> nat \<Rightarrow> MachineBuffer \<times> bool" where
  "getBuffer ps eid =
     (case buffers ps eid of
        Some buf \<Rightarrow> (buf, True)
      | None \<Rightarrow> (\<lparr>inputSlots = Map.empty, outputSlots = Map.empty\<rparr>, False))"

definition putBuffer :: "ProductionSystem \<Rightarrow> nat \<Rightarrow> bool \<Rightarrow> MachineBuffer \<Rightarrow> ProductionSystem" where
  "putBuffer ps eid stored buf = (if stored then ps\<lparr>buffers := (buffers ps)(eid \<mapsto> buf)\<rparr> else ps)"

text \<open>
  The other methods of the class: a new system, the recipe registry, the two methods the
  conveyors call on the buffers, and the removal of an entity.
\<close>

definition new_ProductionSystem :: ProductionSystem where
  "new_ProductionSystem = \<lparr>buffers = Map.empty, recipes = Map.empty\<rparr>"

definition registerRecipe :: "ProductionSystem \<Rightarrow> nat \<Rightarrow> RuntimeRecipe \<Rightarrow> ProductionSystem" where
  "registerRecipe ps index recipe = ps\<lparr>recipes := (recipes ps)(index \<mapsto> recipe)\<rparr>"

definition addToInput :: "ProductionSystem \<Rightarrow> nat \<Rightarrow> string \<Rightarrow> int \<Rightarrow> int \<times> ProductionSystem" where
  "addToInput ps eid i n =
     (let (buffer, stored) = getBuffer ps eid;
          current = slotCount (inputSlots buffer) i;
          maxInput = 100;
          canAccept = min n (maxInput - current)
      in if canAccept > 0
         then (canAccept,
               putBuffer ps eid stored
                 (buffer\<lparr>inputSlots := (inputSlots buffer)(i \<mapsto> current + canAccept)\<rparr>))
         else (canAccept, ps))"

definition takeFromOutput :: "ProductionSystem \<Rightarrow> nat \<Rightarrow> string \<Rightarrow> int \<Rightarrow> int \<times> ProductionSystem" where
  "takeFromOutput ps eid i n =
     (let (buffer, stored) = getBuffer ps eid;
          current = slotCount (outputSlots buffer) i;
          canTake = min n current
      in if canTake > 0
         then (canTake,
               putBuffer ps eid stored
                 (buffer\<lparr>outputSlots := (outputSlots buffer)(i \<mapsto> current - canTake)\<rparr>))
         else (canTake, ps))"

definition removeEntity :: "ProductionSystem \<Rightarrow> nat \<Rightarrow> ProductionSystem" where
  "removeEntity ps eid = ps\<lparr>buffers := (buffers ps)(eid := None)\<rparr>"

definition hasIngredients :: "MachineBuffer \<Rightarrow> RuntimeRecipe \<Rightarrow> bool" where
  "hasIngredients buffer recipe =
     list_all (\<lambda>ing. \<not> slotCount (inputSlots buffer) (itemId ing) < amount ing)
       (ingredients recipe)"

definition consumeIngredients :: "MachineBuffer \<Rightarrow> RuntimeRecipe \<Rightarrow> MachineBuffer" where
  "consumeIngredients buffer recipe =
     fold (\<lambda>ing b.
         b\<lparr>inputSlots := (inputSlots b)(itemId ing \<mapsto>
               slotCount (inputSlots b) (itemId ing) - amount ing)\<rparr>)
       (ingredients recipe) buffer"

definition MAX_OUTPUT_BUFFER :: int where
  "MAX_OUTPUT_BUFFER = 100"

definition canOutput :: "MachineBuffer \<Rightarrow> RuntimeRecipe \<Rightarrow> bool" where
  "canOutput buffer recipe =
     list_all (\<lambda>prod. \<not> slotCount (outputSlots buffer) (itemId prod) + amount prod
                          > MAX_OUTPUT_BUFFER)
       (products recipe)"

definition produceOutputs :: "MachineBuffer \<Rightarrow> RuntimeRecipe \<Rightarrow> MachineBuffer" where
  "produceOutputs buffer recipe =
     fold (\<lambda>prod b.
         b\<lparr>outputSlots := (outputSlots b)(itemId prod \<mapsto>
               slotCount (outputSlots b) (itemId prod) + amount prod)\<rparr>)
       (products recipe) buffer"

definition setInactive :: "World \<Rightarrow> nat \<Rightarrow> World" where
  "setInactive w eid = w\<lparr>Producer_isActive := (Producer_isActive w)(eid := 0)\<rparr>"

definition processProducer ::
  "ProductionSystem \<Rightarrow> World \<Rightarrow> nat \<Rightarrow> real \<Rightarrow> ProductionSystem \<times> World" where
  "processProducer ps w eid dt =
     (case recipes ps (Producer_recipeId w eid) of
        None \<Rightarrow> (ps, setInactive w eid)
      | Some recipe \<Rightarrow>
          (let (buffer, stored) = getBuffer ps eid;
               shardCount = Producer_powerShards w eid;
               shardBonus = real shardCount * POWER_SHARD_bonusPerSlot;
               speedMultiplier = min (1 + shardBonus) POWER_SHARD_maxMultiplier;
               w1 = w\<lparr>Producer_speedMultiplier :=
                        (Producer_speedMultiplier w)(eid := speedMultiplier)\<rparr>;
               w2 = (if PowerConsumer_basePowerMW w1 eid > 0
                     then (let powerMultiplier = speedMultiplier powr (16 / 10)
                           in w1\<lparr>PowerConsumer_currentPowerMW :=
                                  (PowerConsumer_currentPowerMW w1)
                                    (eid := PowerConsumer_basePowerMW w1 eid * powerMultiplier)\<rparr>)
                     else w1)
           in if \<not> canOutput buffer recipe then (ps, setInactive w2 eid)
              else if Producer_progress w2 eid = 0 \<and> \<not> hasIngredients buffer recipe
              then (ps, setInactive w2 eid)
              else
                (let buffer1 = (if Producer_progress w2 eid = 0
                                then consumeIngredients buffer recipe else buffer);
                     w3 = w2\<lparr>Producer_isActive := (Producer_isActive w2)(eid := 1)\<rparr>;
                     progressDelta = (dt / duration recipe) * speedMultiplier;
                     w4 = w3\<lparr>Producer_progress :=
                              (Producer_progress w3)(eid := Producer_progress w3 eid + progressDelta)\<rparr>
                 in if Producer_progress w4 eid \<ge> 1
                    then (putBuffer ps eid stored (produceOutputs buffer1 recipe),
                          w4\<lparr>Producer_progress := (Producer_progress w4)(eid := 0)\<rparr>)
                    else (putBuffer ps eid stored buffer1, w4))))"

text \<open>The body of the loop of \<^verbatim>\<open>ProductionSystem.update\<close> for one producer, and the loop.\<close>

definition updateProducer ::
  "PowerGridSystem \<Rightarrow> real \<Rightarrow> nat \<Rightarrow> ProductionSystem \<times> World \<Rightarrow> ProductionSystem \<times> World" where
  "updateProducer powerGrid dt eid st =
     (case st of (ps, w) \<Rightarrow>
        (let needsPower = PowerConsumer_basePowerMW w eid > 0
         in if needsPower \<and> isEntityBlackedOut powerGrid (PowerConsumer_networkId w eid)
            then (ps, w\<lparr>Producer_isActive := (Producer_isActive w)(eid := 0),
                        PowerConsumer_currentPowerMW := (PowerConsumer_currentPowerMW w)(eid := 0)\<rparr>)
            else processProducer ps w eid dt))"

definition ProductionSystem_update ::
  "ProductionSystem \<Rightarrow> World \<Rightarrow> real \<Rightarrow> PowerGridSystem \<Rightarrow> ProductionSystem \<times> World" where
  "ProductionSystem_update ps w dt powerGrid =
     fold (updateProducer powerGrid dt) (activeProducerQuery w) (ps, w)"




definition ironPlate :: RuntimeRecipe where
  "ironPlate = \<lparr>recipe_id = ''Recipe_IronPlate_C'', duration = 6,
      ingredients = [\<lparr>itemId = ''Desc_IronIngot_C'', amount = 5\<rparr>],
      products = [\<lparr>itemId = ''Desc_IronPlate_C'', amount = 2\<rparr>]\<rparr>"

definition machineWorld :: World where
  "machineWorld =
     emptyWorld\<lparr>activeProducerQuery := [7],
        PowerConsumer_basePowerMW := (\<lambda>_. 0)(7 := 4),
        Producer_recipeId := (\<lambda>_. 0)(7 := 3)\<rparr>"

definition factory :: "int \<Rightarrow> int \<Rightarrow> ProductionSystem" where
  "factory ingots plates =
     \<lparr>buffers = Map.empty(7 \<mapsto>
        \<lparr>inputSlots = Map.empty(''Desc_IronIngot_C'' \<mapsto> ingots),
         outputSlots = Map.empty(''Desc_IronPlate_C'' \<mapsto> plates)\<rparr>),
      recipes = Map.empty(3 \<mapsto> ironPlate)\<rparr>"





section \<open>CommandHistory\<close>

text \<open>
  A command carries two callbacks that act on the game: \<^verbatim>\<open>execute\<close>, which reports whether it
  succeeded, and \<^verbatim>\<open>undo\<close>. The model passes the state they act on (the world \<open>'w\<close>, which
  also holds whatever a command remembers between calls) through them explicitly;
  \<^verbatim>\<open>serialize\<close> plays no part in the history and is left out. The stacks are JavaScript
  arrays: \<^verbatim>\<open>push\<close> appends at the end, \<^verbatim>\<open>pop\<close> takes the last element, \<^verbatim>\<open>shift\<close> drops the
  first. The scenario functions and the two building commands at the end are used to run
  the history on concrete inputs: both commands need one unit of stock to build, and only
  \<open>buildRefund\<close> gives it back when undone.
\<close>

record 'w Command =
  cmd_type :: string
  timestamp :: int
  execute :: "'w \<Rightarrow> bool \<times> 'w"
  undo :: "'w \<Rightarrow> 'w"

record 'w CommandHistory =
  undoStack :: "'w Command list"
  redoStack :: "'w Command list"

definition maxHistory :: nat where
  "maxHistory = 100"

definition new_CommandHistory :: "'w CommandHistory" where
  "new_CommandHistory = \<lparr>undoStack = [], redoStack = []\<rparr>"

definition CommandHistory_execute ::
  "'w CommandHistory \<Rightarrow> 'w \<Rightarrow> 'w Command \<Rightarrow> bool \<times> 'w CommandHistory \<times> 'w" where
  "CommandHistory_execute h w command =
     (case execute command w of
        (success, w') \<Rightarrow>
          if success then
            (let pushed = undoStack h @ [command];
                 trimmed = (if length pushed > maxHistory then tl pushed else pushed)
             in (success, \<lparr>undoStack = trimmed, redoStack = []\<rparr>, w'))
          else (success, h, w'))"

definition CommandHistory_undo ::
  "'w CommandHistory \<Rightarrow> 'w \<Rightarrow> bool \<times> 'w CommandHistory \<times> 'w" where
  "CommandHistory_undo h w =
     (if undoStack h = [] then (False, h, w)
      else (let command = last (undoStack h)
            in (True,
                \<lparr>undoStack = butlast (undoStack h), redoStack = redoStack h @ [command]\<rparr>,
                undo command w)))"

definition CommandHistory_redo ::
  "'w CommandHistory \<Rightarrow> 'w \<Rightarrow> bool \<times> 'w CommandHistory \<times> 'w" where
  "CommandHistory_redo h w =
     (if redoStack h = [] then (False, h, w)
      else (let command = last (redoStack h);
                popped = butlast (redoStack h)
            in case execute command w of
                 (success, w') \<Rightarrow>
                   if success
                   then (success, \<lparr>undoStack = undoStack h @ [command], redoStack = popped\<rparr>, w')
                   else (success, \<lparr>undoStack = undoStack h, redoStack = popped\<rparr>, w')))"

definition executeAll ::
  "'w Command list \<Rightarrow> 'w CommandHistory \<times> 'w \<Rightarrow> 'w CommandHistory \<times> 'w" where
  "executeAll cs st = fold (\<lambda>c (h, w). snd (CommandHistory_execute h w c)) cs st"

definition undoTimes :: "nat \<Rightarrow> 'w CommandHistory \<times> 'w \<Rightarrow> 'w CommandHistory \<times> 'w" where
  "undoTimes n st = ((\<lambda>(h, w). snd (CommandHistory_undo h w)) ^^ n) st"

definition afterAB ::
  "'w CommandHistory \<Rightarrow> 'w \<Rightarrow> 'w Command \<Rightarrow> 'w Command \<Rightarrow> 'w CommandHistory \<times> 'w" where
  "afterAB h w A B =
     (case snd (CommandHistory_execute h w A) of
        (h1, w1) \<Rightarrow> snd (CommandHistory_execute h1 w1 B))"

definition afterABUndoRedo ::
  "'w CommandHistory \<Rightarrow> 'w \<Rightarrow> 'w Command \<Rightarrow> 'w Command \<Rightarrow> 'w CommandHistory \<times> 'w" where
  "afterABUndoRedo h w A B =
     (case afterAB h w A B of
        (h2, w2) \<Rightarrow>
          (case snd (CommandHistory_undo h2 w2) of
             (h3, w3) \<Rightarrow> snd (CommandHistory_redo h3 w3)))"

definition build :: "nat \<Rightarrow> (nat set \<times> nat) Command" where
  "build n =
     \<lparr>cmd_type = ''place_building'', timestamp = 0,
      execute = (\<lambda>(placed, stock).
        if n \<in> placed \<or> stock = 0 then (False, (placed, stock))
        else (True, (insert n placed, stock - 1))),
      undo = (\<lambda>(placed, stock). (placed - {n}, stock))\<rparr>"

definition buildRefund :: "nat \<Rightarrow> (nat set \<times> nat) Command" where
  "buildRefund n =
     \<lparr>cmd_type = ''place_building'', timestamp = 0,
      execute = (\<lambda>(placed, stock).
        if n \<in> placed \<or> stock = 0 then (False, (placed, stock))
        else (True, (insert n placed, stock - 1))),
      undo = (\<lambda>(placed, stock). (placed - {n}, stock + 1))\<rparr>"

section \<open>SaveManager\<close>

text \<open>
  \<^verbatim>\<open>JSON.stringify\<close>, \<^verbatim>\<open>JSON.parse\<close> and the conversion of a number to a string belong to the
  platform, not to the repository: they are parameters of the model (the record \<open>JSON\<close>),
  with the fields of a snapshot that the manager does not read kept in \<open>content\<close>. \<open>parse\<close>
  is \<open>None\<close> where \<^verbatim>\<open>JSON.parse\<close> throws or the value has no checksum string (each makes
  \<^verbatim>\<open>load\<close> go on to the next slot). \<^verbatim>\<open>Date.now()\<close> is the parameter \<open>now\<close>.

  Slot numbers are JavaScript numbers. \<^verbatim>\<open>save\<close> records its slot pointer in the metadata,
  and \<^verbatim>\<open>load\<close> takes the start slot from the metadata text with no check
  (\<^verbatim>\<open>meta.lastSlot ?? 0\<close>), so the start slot is whatever number the text holds. A \<open>jsnum\<close>
  is a real number or \<^verbatim>\<open>NaN\<close>; \<^verbatim>\<open>(startSlot - i + MAX_SAVE_SLOTS) % MAX_SAVE_SLOTS\<close> and
  \<^verbatim>\<open>(slot + 1) % MAX_SAVE_SLOTS\<close> are computed on it, \<^verbatim>\<open>%\<close> truncating towards zero.
  \<open>parseMetaLastSlot\<close> is the number that \<^verbatim>\<open>startSlot - i\<close> makes of
  \<^verbatim>\<open>JSON.parse(metaJson).lastSlot ?? 0\<close> (a string or a boolean is converted to a number;
  an infinite value, of which \<^verbatim>\<open>%\<close> makes \<^verbatim>\<open>NaN\<close>, counts as \<^verbatim>\<open>NaN\<close>), and \<open>None\<close> where
  \<^verbatim>\<open>JSON.parse\<close> or the property access throws. In a key, a number without fractional
  part is printed in decimal digits (slot numbers lie between \<open>-5\<close> and 5) and
  \<open>showFraction\<close> prints the others. The rounding of floating-point arithmetic is not
  modelled.

  The promise of the storage adapter can reject: \<open>readFails\<close> and \<open>writeFails\<close> say for
  which keys. In \<^verbatim>\<open>load\<close> the read of the metadata is outside every \<^verbatim>\<open>try\<close> block, so its
  rejection is the outcome of \<^verbatim>\<open>load\<close> (\<open>Inl\<close>); the read of a slot is inside the \<^verbatim>\<open>try\<close>
  block of its iteration, so its rejection moves on to the next slot. In \<^verbatim>\<open>save\<close> either
  write can reject the call: what was written before stays written and the slot pointer
  is not advanced.

  Strings are lists of 8-bit characters, so the checksum is modelled on strings of code
  units below 256.
\<close>

datatype jsnum = Num real | NaN

definition js_fmod :: "real \<Rightarrow> int \<Rightarrow> real" where
  "js_fmod x m = sgn x * (\<bar>x\<bar> - of_int \<bar>m\<bar> * of_int \<lfloor>\<bar>x\<bar> / of_int \<bar>m\<bar>\<rfloor>)"

fun num_plus :: "jsnum \<Rightarrow> int \<Rightarrow> jsnum" where
  "num_plus (Num x) k = Num (x + of_int k)"
| "num_plus NaN k = NaN"

fun num_rem :: "jsnum \<Rightarrow> int \<Rightarrow> jsnum" where
  "num_rem (Num x) m = Num (js_fmod x m)"
| "num_rem NaN m = NaN"

record 'a SaveData =
  version :: int
  save_timestamp :: int
  checksum :: string
  content :: 'a

record 'a JSON =
  stringify :: "'a SaveData \<Rightarrow> string"
  parse :: "string \<Rightarrow> 'a SaveData option"
  stringifyMeta :: "jsnum \<Rightarrow> int \<Rightarrow> int \<Rightarrow> string"
  parseMetaLastSlot :: "string \<Rightarrow> jsnum option"
  showFraction :: "real \<Rightarrow> string"

datatype storage_error = StorageError

record StorageAdapter =
  stored :: "string \<rightharpoonup> string"
  readFails :: "string \<Rightarrow> bool"
  writeFails :: "string \<Rightarrow> bool"

definition adapter_save :: "StorageAdapter \<Rightarrow> string \<Rightarrow> string \<Rightarrow> storage_error + StorageAdapter" where
  "adapter_save a key data =
     (if writeFails a key then Inl StorageError else Inr (a\<lparr>stored := (stored a)(key \<mapsto> data)\<rparr>))"

definition adapter_load :: "StorageAdapter \<Rightarrow> string \<Rightarrow> storage_error + string option" where
  "adapter_load a key = (if readFails a key then Inl StorageError else Inr (stored a key))"

record SaveManager =
  currentSlot :: jsnum

definition new_SaveManager :: SaveManager where
  "new_SaveManager = \<lparr>currentSlot = Num 0\<rparr>"

definition digitChar :: "nat \<Rightarrow> char" where
  "digitChar d = (if d < 10 then char_of (48 + d) else char_of (87 + d))"

function toDigits :: "nat \<Rightarrow> nat \<Rightarrow> string" where
  "toDigits b n = (if n < b \<or> b < 2 then [digitChar n] else toDigits b (n div b) @ [digitChar (n mod b)])"
  by pat_completeness auto
termination
  by (relation "measure snd") auto

definition js_toString :: "nat \<Rightarrow> int \<Rightarrow> string" where
  "js_toString radix n = (if n < 0 then CHR ''-'' # toDigits radix (nat (- n)) else toDigits radix (nat n))"

definition numberToString :: "(real \<Rightarrow> string) \<Rightarrow> jsnum \<Rightarrow> string" where
  "numberToString fraction n =
     (case n of
        NaN \<Rightarrow> ''NaN''
      | Num x \<Rightarrow> if x = of_int \<lfloor>x\<rfloor> then js_toString 10 \<lfloor>x\<rfloor> else fraction x)"

definition computeChecksum :: "string \<Rightarrow> string" where
  "computeChecksum data =
     js_toString 16
       (sint (foldl (\<lambda>hash c. (push_bit 5 hash - hash) + of_nat (of_char c)) (0 :: 32 word) data))"

definition slotKey :: "'a JSON \<Rightarrow> jsnum \<Rightarrow> string" where
  "slotKey json slot = ''save_slot_'' @ numberToString (showFraction json) slot"

definition nextSlot :: "jsnum \<Rightarrow> jsnum" where
  "nextSlot slot = num_rem (num_plus slot 1) MAX_SAVE_SLOTS"

definition save ::
  "'a JSON \<Rightarrow> int \<Rightarrow> SaveManager \<Rightarrow> StorageAdapter \<Rightarrow> 'a SaveData
     \<Rightarrow> (storage_error + unit) \<times> SaveManager \<times> StorageAdapter" where
  "save json now sm a data =
     (let data1 = data\<lparr>version := SAVE_VERSION, save_timestamp := now, checksum := []\<rparr>;
          jsonWithoutChecksum = stringify json data1;
          data2 = data1\<lparr>checksum := computeChecksum jsonWithoutChecksum\<rparr>;
          text = stringify json data2
      in case adapter_save a (slotKey json (currentSlot sm)) text of
           Inl e \<Rightarrow> (Inl e, sm, a)
         | Inr a1 \<Rightarrow>
             (case adapter_save a1 ''save_meta''
                     (stringifyMeta json (currentSlot sm) (save_timestamp data2) MAX_SAVE_SLOTS) of
                Inl e \<Rightarrow> (Inl e, sm, a1)
              | Inr a2 \<Rightarrow> (Inr (), sm\<lparr>currentSlot := nextSlot (currentSlot sm)\<rparr>, a2)))"

definition stamped :: "'a JSON \<Rightarrow> int \<Rightarrow> 'a SaveData \<Rightarrow> 'a SaveData" where
  "stamped json now data =
     data\<lparr>version := SAVE_VERSION, save_timestamp := now,
          checksum := computeChecksum (stringify json
            (data\<lparr>version := SAVE_VERSION, save_timestamp := now, checksum := []\<rparr>))\<rparr>"

definition startSlotOf :: "'a JSON \<Rightarrow> string option \<Rightarrow> jsnum" where
  "startSlotOf json metaJson =
     (case metaJson of
        None \<Rightarrow> Num 0
      | Some m \<Rightarrow>
          if m = [] then Num 0
          else (case parseMetaLastSlot json m of None \<Rightarrow> Num 0 | Some lastSlot \<Rightarrow> lastSlot))"

definition slotAt :: "jsnum \<Rightarrow> int \<Rightarrow> jsnum" where
  "slotAt startSlot i = num_rem (num_plus (num_plus startSlot (- i)) MAX_SAVE_SLOTS) MAX_SAVE_SLOTS"

definition tryLoadSlot :: "'a JSON \<Rightarrow> StorageAdapter \<Rightarrow> jsnum \<Rightarrow> 'a SaveData option" where
  "tryLoadSlot json a slot =
     (case adapter_load a (slotKey json slot) of
        Inl e \<Rightarrow> None
      | Inr None \<Rightarrow> None
      | Inr (Some text) \<Rightarrow>
          if text = [] then None
          else (case parse json text of
                  None \<Rightarrow> None
                | Some data \<Rightarrow>
                    (let savedChecksum = checksum data;
                         computedChecksum = computeChecksum (stringify json (data\<lparr>checksum := []\<rparr>))
                     in if savedChecksum \<noteq> computedChecksum then None else Some data)))"

function load_loop :: "'a JSON \<Rightarrow> StorageAdapter \<Rightarrow> jsnum \<Rightarrow> int \<Rightarrow> ('a SaveData \<times> jsnum) option" where
  "load_loop json a startSlot i =
     (if i < MAX_SAVE_SLOTS then
        (let slot = slotAt startSlot i
         in case tryLoadSlot json a slot of
              Some data \<Rightarrow> Some (data, slot)
            | None \<Rightarrow> load_loop json a startSlot (i + 1))
      else None)"
  by pat_completeness auto
termination
  by (relation "measure (\<lambda>(json, a, startSlot, i). nat (MAX_SAVE_SLOTS - i))") auto

definition load ::
  "'a JSON \<Rightarrow> SaveManager \<Rightarrow> StorageAdapter
     \<Rightarrow> storage_error + ('a SaveData option \<times> SaveManager)" where
  "load json sm a =
     (case adapter_load a ''save_meta'' of
        Inl e \<Rightarrow> Inl e
      | Inr metaJson \<Rightarrow>
          Inr (case load_loop json a (startSlotOf json metaJson) 0 of
                 Some (data, slot) \<Rightarrow> (Some data, sm\<lparr>currentSlot := nextSlot slot\<rparr>)
               | None \<Rightarrow> (None, sm)))"

definition candidates :: "jsnum \<Rightarrow> jsnum list" where
  "candidates startSlot = map (slotAt startSlot) [0..MAX_SAVE_SLOTS - 1]"

definition isSlot :: "jsnum \<Rightarrow> bool" where
  "isSlot n = (n \<in> set (map (\<lambda>k. Num (of_int k)) [0..MAX_SAVE_SLOTS - 1]))"

text \<open>
  The hash of \<^verbatim>\<open>computeChecksum\<close> on integers modulo \<open>2\<^sup>3\<^sup>2\<close> (\<open>(h << 5) - h\<close> is \<open>31 * h\<close>):
  the proofs evaluate checksums through it.
\<close>

definition hashInt :: "int \<Rightarrow> string \<Rightarrow> int" where
  "hashInt h cs = foldl (\<lambda>h c. (31 * h + int (of_char c)) mod 4294967296) h cs"

text \<open>
  A platform and storages for running the manager on concrete inputs. The snapshots are
  those of an empty game, printed as \<^verbatim>\<open>JSON.stringify\<close> prints them; the checksums of
  \<open>firstSave\<close> and \<open>secondSave\<close> are the ones \<^verbatim>\<open>computeChecksum\<close> gives, and \<open>damagedSave\<close> is
  \<open>secondSave\<close> with the last character of its checksum changed. \<open>parse\<close> and
  \<open>parseMetaLastSlot\<close> are defined on the texts of the examples, and \<open>halves\<close> prints the
  positive numbers with fractional part one half. \<open>afterTwoSaves\<close> saves twice into an
  empty storage; \<open>damagedStorage\<close> is the outcome with the text of slot 1 replaced by the
  damaged one; \<open>misfiled key lastSlot\<close> holds one valid snapshot under \<open>key\<close> and a metadata
  text recording \<open>lastSlot\<close>; \<open>unreadableMeta\<close> rejects the read of the metadata.
\<close>

definition emptyGameFields :: string where
  \<open>emptyGameFields = '',"gameTime":0,"entities":[],"inventory":{},"unlockedMilestones":[],"unlockedRecipes":[],"milestoneProgress":{},"cameraPosition":{"x":0,"y":0,"z":0},"cameraTarget":{"x":0,"y":0,"z":0}}''\<close>

definition snapshotText :: "unit SaveData \<Rightarrow> string" where
  \<open>snapshotText d =
     ''{"version":'' @ js_toString 10 (version d) @ '',"timestamp":'' @ js_toString 10 (save_timestamp d)
       @ '',"checksum":"'' @ checksum d @ ''"'' @ emptyGameFields\<close>

definition halves :: "real \<Rightarrow> string" where
  "halves x = js_toString 10 \<lfloor>x\<rfloor> @ ''.5''"

definition metaText :: "jsnum \<Rightarrow> int \<Rightarrow> int \<Rightarrow> string" where
  \<open>metaText lastSlot lastTimestamp slots =
     ''{"lastSlot":'' @ (case lastSlot of NaN \<Rightarrow> ''null'' | Num x \<Rightarrow> numberToString halves (Num x))
       @ '',"lastTimestamp":'' @ js_toString 10 lastTimestamp
       @ '',"slots":'' @ js_toString 10 slots @ ''}''\<close>

definition blank :: "unit SaveData" where
  "blank = \<lparr>version = 0, save_timestamp = 0, checksum = [], content = ()\<rparr>"

definition firstSave :: "unit SaveData" where
  "firstSave = \<lparr>version = 1, save_timestamp = 1000, checksum = ''-5d561d78'', content = ()\<rparr>"

definition secondSave :: "unit SaveData" where
  "secondSave = \<lparr>version = 1, save_timestamp = 2000, checksum = ''-17fb4677'', content = ()\<rparr>"

definition damagedSave :: "unit SaveData" where
  "damagedSave = secondSave\<lparr>checksum := ''-17fb4678''\<rparr>"

definition gameJSON :: "unit JSON" where
  "gameJSON =
     \<lparr>stringify = snapshotText,
      parse = map_of (map (\<lambda>d. (snapshotText d, d)) [firstSave, secondSave, damagedSave]),
      stringifyMeta = metaText,
      parseMetaLastSlot =
        map_of (map (\<lambda>(n, t). (metaText n t MAX_SAVE_SLOTS, n))
          [(Num 0, 1000), (Num 1, 2000), (Num (- 2), 1000), (Num 7, 1000), (Num (3 / 2), 1000)]),
      showFraction = halves\<rparr>"

definition emptyStorage :: StorageAdapter where
  "emptyStorage = \<lparr>stored = Map.empty, readFails = (\<lambda>key. False), writeFails = (\<lambda>key. False)\<rparr>"

definition afterTwoSaves :: "(storage_error + unit) \<times> SaveManager \<times> StorageAdapter" where
  "afterTwoSaves =
     (let (r1, sm1, a1) = save gameJSON 1000 new_SaveManager emptyStorage blank
      in save gameJSON 2000 sm1 a1 blank)"

definition damagedStorage :: StorageAdapter where
  "damagedStorage =
     (snd (snd afterTwoSaves))\<lparr>stored :=
        (stored (snd (snd afterTwoSaves)))(''save_slot_1'' \<mapsto> snapshotText damagedSave)\<rparr>"

definition misfiled :: "string \<Rightarrow> jsnum \<Rightarrow> StorageAdapter" where
  "misfiled key lastSlot =
     \<lparr>stored = Map.empty(key \<mapsto> snapshotText firstSave,
                           ''save_meta'' \<mapsto> metaText lastSlot 1000 MAX_SAVE_SLOTS),
      readFails = (\<lambda>key. False), writeFails = (\<lambda>key. False)\<rparr>"

definition unreadableMeta :: StorageAdapter where
  "unreadableMeta = emptyStorage\<lparr>readFails := (\<lambda>key. key = ''save_meta'')\<rparr>"

declare load_loop.simps [simp del]
declare toDigits.simps [simp del]

section \<open>ProgressionSystem and InventorySystem\<close>

text \<open>
  Of a milestone definition the model keeps the fields the progression system reads; of
  the two systems, the milestone side and the player inventory (the space-elevator phases
  and the container inventories follow the same code and are not needed here). Every path
  of \<^verbatim>\<open>deliverToMilestone\<close> returns a number, so the model is a plain total function with no
  error branch. \<open>tally\<close>, \<open>completed\<close> and \<open>allDelivered\<close> read a state: the delivered count
  of an item (0 when there is no record), the completion flag, and whether every cost item
  has reached its amount. The milestones and the inventories at the end are used to run a
  delivery on concrete inputs: a milestone that costs five iron rods, a milestone that
  costs nothing, inventories holding a given number of rods, and the inventory that
  \<^verbatim>\<open>addToPlayer\<close> leaves when it is called on an empty inventory with the amount \<open>-2\<close>.
\<close>

record MilestoneDefinition =
  ms_id :: string
  ms_name :: string
  tier :: int
  cost :: "RecipeItem list"
  ms_unlockedRecipes :: "string list"
  ms_unlockedBuildings :: "string list"

record MilestoneProgress =
  milestoneId :: string
  delivered :: "string \<rightharpoonup> int"
  isComplete :: bool

record ProgressionSystem =
  milestones :: "MilestoneDefinition list"
  unlockedMilestones :: "string set"
  milestoneProgress :: "string \<rightharpoonup> MilestoneProgress"
  unlockedRecipes :: "string set"
  unlockedBuildings :: "string set"


















section \<open>Coordinate mapping\<close>

lemma js_rem_chunk: "normalizeLocal (js_rem a CHUNK_SIZE) = a mod CHUNK_SIZE"
proof (cases "0 \<le> a")
  case True
  then show ?thesis
    by (cases "a = 0") (simp_all add: js_rem_def normalizeLocal_def CHUNK_SIZE_def)
next
  case False
  then have neg: "a < 0" by simp
  have m: "(- a) mod 32 = (if a mod 32 = 0 then 0 else 32 - a mod 32)"
    by (simp add: zmod_zminus1_eq_if)
  show ?thesis
    using neg m by (auto simp add: js_rem_def normalizeLocal_def CHUNK_SIZE_def)
qed

lemma floor_chunk: "\<lfloor>real_of_int a / real_of_int CHUNK_SIZE\<rfloor> = a div CHUNK_SIZE"
  using floor_divide_of_int_eq [of a CHUNK_SIZE, where ?'a = real] by simp

text \<open>
  C8. For arbitrary integer coordinates the chunk coordinate is the quotient rounded
  towards minus infinity, the local coordinate is the remainder normalised into
  \<open>[0, CHUNK_SIZE)\<close>, and chunk coordinate times \<open>CHUNK_SIZE\<close> plus local coordinate gives
  back the coordinate, on both axes.
\<close>

theorem C8_chunk_local_mapping:
  "cx (positionToChunk pos) = pos_x pos div CHUNK_SIZE
   \<and> cz (positionToChunk pos) = pos_z pos div CHUNK_SIZE
   \<and> real_of_int (cx (positionToChunk pos)) \<le> real_of_int (pos_x pos) / 32
   \<and> real_of_int (pos_x pos) / 32 < real_of_int (cx (positionToChunk pos)) + 1
   \<and> real_of_int (cz (positionToChunk pos)) \<le> real_of_int (pos_z pos) / 32
   \<and> real_of_int (pos_z pos) / 32 < real_of_int (cz (positionToChunk pos)) + 1
   \<and> fst (positionToLocal pos) = pos_x pos mod CHUNK_SIZE
   \<and> snd (positionToLocal pos) = pos_z pos mod CHUNK_SIZE
   \<and> 0 \<le> fst (positionToLocal pos) \<and> fst (positionToLocal pos) < CHUNK_SIZE
   \<and> 0 \<le> snd (positionToLocal pos) \<and> snd (positionToLocal pos) < CHUNK_SIZE
   \<and> cx (positionToChunk pos) * CHUNK_SIZE + fst (positionToLocal pos) = pos_x pos
   \<and> cz (positionToChunk pos) * CHUNK_SIZE + snd (positionToLocal pos) = pos_z pos"
proof -
  have cxd: "cx (positionToChunk pos) = pos_x pos div CHUNK_SIZE"
    by (simp add: positionToChunk_def floor_chunk)
  have czd: "cz (positionToChunk pos) = pos_z pos div CHUNK_SIZE"
    by (simp add: positionToChunk_def floor_chunk)
  have lx: "fst (positionToLocal pos) = pos_x pos mod CHUNK_SIZE"
    by (simp add: positionToLocal_def Let_def js_rem_chunk)
  have lz: "snd (positionToLocal pos) = pos_z pos mod CHUNK_SIZE"
    by (simp add: positionToLocal_def Let_def js_rem_chunk)
  have fx: "real_of_int (cx (positionToChunk pos)) \<le> real_of_int (pos_x pos) / 32
      \<and> real_of_int (pos_x pos) / 32 < real_of_int (cx (positionToChunk pos)) + 1"
    by (simp add: positionToChunk_def CHUNK_SIZE_def) linarith
  have fz: "real_of_int (cz (positionToChunk pos)) \<le> real_of_int (pos_z pos) / 32
      \<and> real_of_int (pos_z pos) / 32 < real_of_int (cz (positionToChunk pos)) + 1"
    by (simp add: positionToChunk_def CHUNK_SIZE_def) linarith
  have pos32: "0 < CHUNK_SIZE" by (simp add: CHUNK_SIZE_def)
  show ?thesis
    using fx fz pos32 by (simp add: cxd czd lx lz)
qed


section \<open>Placement on the grid\<close>


lemma array_get_set:
  "array_get (array_set xs i v) j = (if i = j then v else array_get xs j)"
proof (cases "i < length xs")
  case True
  then show ?thesis
    by (auto simp add: array_get_def array_set_def)
next
  case False
  then have len: "length xs \<le> i" by simp
  show ?thesis
  proof (cases "j < length xs")
    case True
    then show ?thesis using len
      by (auto simp add: array_get_def array_set_def nth_append)
  next
    case jbig: False
    show ?thesis
    proof (cases "j < i")
      case True
      then show ?thesis using len jbig
        by (auto simp add: array_get_def array_set_def nth_append)
    next
      case False
      then show ?thesis using len jbig
        by (auto simp add: array_get_def array_set_def nth_append nth_Cons')
    qed
  qed
qed

lemma getCell_setCell:
  "getCell (setCell c lx lz y cell) lx' lz' y' =
     (if y = y' \<and> nat (localIndex lx lz) = nat (localIndex lx' lz') then cell
      else getCell c lx' lz' y')"
proof (cases "cells c y")
  case None
  then show ?thesis
    by (simp add: getCell_def setCell_def getFloor_def Let_def array_get_set)
       (simp add: array_get_def)
next
  case (Some fl)
  then show ?thesis
    by (simp add: getCell_def setCell_def getFloor_def Let_def array_get_set)
qed

lemma local_x_mod: "fst (positionToLocal p) = pos_x p mod CHUNK_SIZE"
  by (simp add: positionToLocal_def Let_def js_rem_chunk)

lemma local_z_mod: "snd (positionToLocal p) = pos_z p mod CHUNK_SIZE"
  by (simp add: positionToLocal_def Let_def js_rem_chunk)

lemma chunk_x_div: "cx (positionToChunk p) = pos_x p div CHUNK_SIZE"
  by (simp add: positionToChunk_def floor_chunk)

lemma chunk_z_div: "cz (positionToChunk p) = pos_z p div CHUNK_SIZE"
  by (simp add: positionToChunk_def floor_chunk)

lemma index_inj:
  assumes "0 \<le> a" "a < 32" "0 \<le> a'" "a' < 32" "0 \<le> b" "0 \<le> b'"
  shows "nat (localIndex a b) = nat (localIndex a' b') \<longleftrightarrow> a = a' \<and> b = b'"
proof -
  have "nat (localIndex a b) = nat (localIndex a' b') \<longleftrightarrow> b * 32 + a = b' * 32 + a'"
    using assms by (simp add: localIndex_def CHUNK_SIZE_def nat_eq_iff)
  also have "\<dots> \<longleftrightarrow> a = a' \<and> b = b'"
  proof
    assume eq: "b * 32 + a = b' * 32 + a'"
    have "(b * 32 + a) mod 32 = a" "(b' * 32 + a') mod 32 = a'"
      using assms by simp_all
    then have "a = a'" using eq by simp
    then show "a = a' \<and> b = b'" using eq by simp
  qed simp
  finally show ?thesis .
qed

lemma same_slot_iff:
  "(chunkKey (cx (positionToChunk p)) (cz (positionToChunk p))
      = chunkKey (cx (positionToChunk q)) (cz (positionToChunk q))
    \<and> nat (localIndex (fst (positionToLocal p)) (snd (positionToLocal p)))
      = nat (localIndex (fst (positionToLocal q)) (snd (positionToLocal q))))
   \<longleftrightarrow> (pos_x p = pos_x q \<and> pos_z p = pos_z q)"
proof -
  have idx: "nat (localIndex (pos_x p mod 32) (pos_z p mod 32))
      = nat (localIndex (pos_x q mod 32) (pos_z q mod 32))
    \<longleftrightarrow> pos_x p mod 32 = pos_x q mod 32 \<and> pos_z p mod 32 = pos_z q mod 32"
    by (intro index_inj) simp_all
  have x: "pos_x p div 32 = pos_x q div 32 \<and> pos_x p mod 32 = pos_x q mod 32
      \<longleftrightarrow> pos_x p = pos_x q"
    using mult_div_mod_eq by metis
  have z: "pos_z p div 32 = pos_z q div 32 \<and> pos_z p mod 32 = pos_z q mod 32
      \<longleftrightarrow> pos_z p = pos_z q"
    using mult_div_mod_eq by metis
  show ?thesis
    unfolding local_x_mod local_z_mod chunk_x_div chunk_z_div chunkKey_def CHUNK_SIZE_def
    using idx x z by auto
qed

lemma getCellAt_writeCell:
  "getCellAt (writeCell g p y cell) q =
     (if pos_x p = pos_x q \<and> pos_z p = pos_z q \<and> y = pos_y q then Some cell
      else getCellAt g q)"
proof -
  let ?kp = "chunkKey (cx (positionToChunk p)) (cz (positionToChunk p))"
  let ?kq = "chunkKey (cx (positionToChunk q)) (cz (positionToChunk q))"
  let ?ip = "nat (localIndex (fst (positionToLocal p)) (snd (positionToLocal p)))"
  let ?iq = "nat (localIndex (fst (positionToLocal q)) (snd (positionToLocal q)))"
  have raw: "getCellAt (writeCell g p y cell) q =
     (if (?kp = ?kq \<and> ?ip = ?iq) \<and> y = pos_y q then Some cell else getCellAt g q)"
  proof (cases "chunks g ?kp")
    case None
    then show ?thesis
      by (simp add: getCellAt_def writeCell_def getChunk_def Let_def split_beta
            getCell_setCell)
         (simp add: new_Chunk_def getCell_def)
  next
    case (Some ch)
    then show ?thesis
      by (simp add: getCellAt_def writeCell_def getChunk_def Let_def split_beta
            getCell_setCell)
  qed
  show ?thesis
    unfolding raw same_slot_iff by simp
qed

lemma isOccupied_getCellAt: "isOccupied g q = (getCellAt g q \<noteq> None)"
  by (simp add: isOccupied_def getCellAt_def Let_def split_beta split: option.splits)



lemma offsetPos_sel:
  "pos_x (offsetPos p dx dz) = pos_x p + dx"
  "pos_y (offsetPos p dx dz) = pos_y p"
  "pos_z (offsetPos p dx dz) = pos_z p + dz"
  by (simp_all add: offsetPos_def)

lemma getCellAt_fold_z:
  "getCellAt (fold (\<lambda>dz g2. writeCell g2 (offsetPos pos dx dz) (pos_y pos) cell) zs g) q =
     (if \<exists>dz\<in>set zs. pos_x q = pos_x pos + dx \<and> pos_z q = pos_z pos + dz \<and> pos_y q = pos_y pos
      then Some cell else getCellAt g q)"
proof (induction zs arbitrary: g)
  case Nil
  then show ?case by simp
next
  case (Cons d zs)
  show ?case
    by (auto simp add: Cons.IH getCellAt_writeCell offsetPos_sel)
qed

lemma getCellAt_fold_xz:
  "getCellAt (fold (\<lambda>dx g1.
        fold (\<lambda>dz g2. writeCell g2 (offsetPos pos dx dz) (pos_y pos) cell) zs g1) xs g) q =
     (if \<exists>dx\<in>set xs. \<exists>dz\<in>set zs.
           pos_x q = pos_x pos + dx \<and> pos_z q = pos_z pos + dz \<and> pos_y q = pos_y pos
      then Some cell else getCellAt g q)"
proof (induction xs arbitrary: g)
  case Nil
  then show ?case by simp
next
  case (Cons d xs)
  show ?case
    by (auto simp add: Cons.IH getCellAt_fold_z)
qed

lemma canPlace_iff:
  "canPlace g pos sizeX sizeZ \<longleftrightarrow>
     (\<forall>dx dz. 0 \<le> dx \<and> dx < sizeX \<and> 0 \<le> dz \<and> dz < sizeZ \<longrightarrow>
        getCellAt g (offsetPos pos dx dz) = None)"
  by (auto simp add: canPlace_def list_all_iff isOccupied_getCellAt)

lemma placeEntity_cells:
  assumes "placeEntity g pos sizeX sizeZ eid btype rot = (True, g')"
  shows "getCellAt g' q =
     (if \<exists>dx dz. 0 \<le> dx \<and> dx < sizeX \<and> 0 \<le> dz \<and> dz < sizeZ
            \<and> pos_x q = pos_x pos + dx \<and> pos_z q = pos_z pos + dz \<and> pos_y q = pos_y pos
      then Some \<lparr>entityId = eid, buildingType = btype, rotation = rot\<rparr>
      else getCellAt g q)"
proof -
  have g': "g' = fold (\<lambda>dx g1.
            fold (\<lambda>dz g2.
                writeCell g2 (offsetPos pos dx dz) (pos_y pos)
                  \<lparr>entityId = eid, buildingType = btype, rotation = rot\<rparr>)
              [0..sizeZ - 1] g1)
          [0..sizeX - 1] g"
    using assms by (simp add: placeEntity_def split: if_splits)
  show ?thesis
    unfolding g' getCellAt_fold_xz by (auto simp add: Bex_def)
qed

lemma fold_unchanged: "fold (\<lambda>d. id) ds g = g"
  by (induction ds) simp_all

lemma empty_footprint:
  assumes "sizeX \<le> 0 \<or> sizeZ \<le> 0"
  shows "canPlace g pos sizeX sizeZ"
    and "placeEntity g pos sizeX sizeZ eid btype rot = (True, g)"
proof -
  have none: "[0..sizeX - 1] = [] \<or> [0..sizeZ - 1] = []"
    using assms by auto
  show c: "canPlace g pos sizeX sizeZ"
    using none by (auto simp add: canPlace_def list_all_iff)
  show "placeEntity g pos sizeX sizeZ eid btype rot = (True, g)"
    using none c by (auto simp add: placeEntity_def fold_unchanged id_def [symmetric])
qed

text \<open>
  C2. If a covered cell of the floor is occupied, \<^verbatim>\<open>placeEntity\<close> returns \<^verbatim>\<open>false\<close> and the
  grid is the one it was given (nothing is written). If it succeeds, every cell of the
  footprint reports the placed cell (entity id, building type, rotation) through
  \<^verbatim>\<open>getCellAt\<close>, and \<^verbatim>\<open>canPlace\<close> on the same footprint is \<^verbatim>\<open>false\<close> when the footprint
  has at least one cell (both sizes positive). For every empty footprint (a size that is
  0 or negative) the placement succeeds, the grid is the one it was given, and \<^verbatim>\<open>canPlace\<close>
  stays \<^verbatim>\<open>true\<close>; the counterexample below is one such placement.
\<close>

theorem C2_placeEntity:
  "((\<exists>dx dz. 0 \<le> dx \<and> dx < sizeX \<and> 0 \<le> dz \<and> dz < sizeZ
        \<and> isOccupied g (offsetPos pos dx dz))
      \<longrightarrow> placeEntity g pos sizeX sizeZ eid btype rot = (False, g))
   \<and> (placeEntity g pos sizeX sizeZ eid btype rot = (True, g')
      \<longrightarrow> (\<forall>dx dz. 0 \<le> dx \<and> dx < sizeX \<and> 0 \<le> dz \<and> dz < sizeZ
            \<longrightarrow> getCellAt g' (offsetPos pos dx dz)
                = Some \<lparr>entityId = eid, buildingType = btype, rotation = rot\<rparr>)
        \<and> (0 < sizeX \<and> 0 < sizeZ \<longrightarrow> \<not> canPlace g' pos sizeX sizeZ))
   \<and> (sizeX \<le> 0 \<or> sizeZ \<le> 0
      \<longrightarrow> placeEntity g pos sizeX sizeZ eid btype rot = (True, g)
        \<and> canPlace g pos sizeX sizeZ)"
proof (intro conjI impI)
  assume "\<exists>dx dz. 0 \<le> dx \<and> dx < sizeX \<and> 0 \<le> dz \<and> dz < sizeZ
        \<and> isOccupied g (offsetPos pos dx dz)"
  then have "\<not> canPlace g pos sizeX sizeZ"
    by (auto simp add: canPlace_iff isOccupied_getCellAt)
  then show "placeEntity g pos sizeX sizeZ eid btype rot = (False, g)"
    by (simp add: placeEntity_def)
next
  assume ok: "placeEntity g pos sizeX sizeZ eid btype rot = (True, g')"
  show "\<forall>dx dz. 0 \<le> dx \<and> dx < sizeX \<and> 0 \<le> dz \<and> dz < sizeZ
            \<longrightarrow> getCellAt g' (offsetPos pos dx dz)
                = Some \<lparr>entityId = eid, buildingType = btype, rotation = rot\<rparr>"
    by (auto simp add: placeEntity_cells [OF ok] offsetPos_sel)
next
  assume ok: "placeEntity g pos sizeX sizeZ eid btype rot = (True, g')"
    and sz: "0 < sizeX \<and> 0 < sizeZ"
  have "getCellAt g' (offsetPos pos 0 0)
      = Some \<lparr>entityId = eid, buildingType = btype, rotation = rot\<rparr>"
    using sz by (auto simp add: placeEntity_cells [OF ok] offsetPos_sel)
  moreover have "(0::int) \<le> 0 \<and> 0 < sizeX \<and> (0::int) \<le> 0 \<and> 0 < sizeZ"
    using sz by simp
  ultimately show "\<not> canPlace g' pos sizeX sizeZ"
    unfolding canPlace_iff by force
next
  assume "sizeX \<le> 0 \<or> sizeZ \<le> 0"
  then show "placeEntity g pos sizeX sizeZ eid btype rot = (True, g)"
    using empty_footprint(2) [of sizeX sizeZ g pos eid btype rot] by simp
next
  assume "sizeX \<le> 0 \<or> sizeZ \<le> 0"
  then show "canPlace g pos sizeX sizeZ"
    using empty_footprint(1) [of sizeX sizeZ g pos] by simp
qed

lemma canPlace_emptyGrid: "canPlace emptyGrid pos sizeX sizeZ"
  by (simp add: canPlace_iff getCellAt_def emptyGrid_def Let_def split_beta)

theorem C2_empty_footprint_counterexample:
  "placeEntity emptyGrid origin 0 1 7 ''miner'' 0 = (True, emptyGrid)
   \<and> canPlace emptyGrid origin 0 1"
  by (simp add: placeEntity_def canPlace_emptyGrid)

theorem C2_placeEntity_witness:
  "fst (placeEntity emptyGrid origin 2 1 7 ''miner'' 0)
   \<and> getCellAt (snd (placeEntity emptyGrid origin 2 1 7 ''miner'' 0)) (offsetPos origin 1 0)
       = Some \<lparr>entityId = 7, buildingType = ''miner'', rotation = 0\<rparr>
   \<and> \<not> canPlace (snd (placeEntity emptyGrid origin 2 1 7 ''miner'' 0)) origin 2 1
   \<and> placeEntity (snd (placeEntity emptyGrid origin 2 1 7 ''miner'' 0))
        (offsetPos origin 1 0) 1 1 8 ''smelter'' 0
       = (False, snd (placeEntity emptyGrid origin 2 1 7 ''miner'' 0))
   \<and> placeEntity (snd (placeEntity emptyGrid origin 2 1 7 ''miner'' 0)) origin 2 0 9 ''belt'' 0
       = (True, snd (placeEntity emptyGrid origin 2 1 7 ''miner'' 0))"
proof -
  let ?g = "snd (placeEntity emptyGrid origin 2 1 7 ''miner'' 0)"
  have fstok: "fst (placeEntity emptyGrid origin 2 1 7 ''miner'' 0)"
    by (simp add: placeEntity_def canPlace_emptyGrid)
  have ok: "placeEntity emptyGrid origin 2 1 7 ''miner'' 0 = (True, ?g)"
    using fstok by (cases "placeEntity emptyGrid origin 2 1 7 ''miner'' 0") simp
  note placed = C2_placeEntity [of 2 1 emptyGrid origin 7 "''miner''" 0 ?g,
      THEN conjunct2, THEN conjunct1, THEN mp, OF ok]
  have cellw: "getCellAt ?g (offsetPos origin 1 0)
       = Some \<lparr>entityId = 7, buildingType = ''miner'', rotation = 0\<rparr>"
    using placed [THEN conjunct1, THEN spec, of 1, THEN spec, of 0] by simp
  have blocked: "\<not> canPlace ?g origin 2 1"
    using placed [THEN conjunct2] by simp
  have occ: "isOccupied ?g (offsetPos (offsetPos origin 1 0) 0 0)"
    unfolding isOccupied_getCellAt using cellw by (simp add: offsetPos_def)
  have ex: "\<exists>dx dz. 0 \<le> dx \<and> dx < (1::int) \<and> 0 \<le> dz \<and> dz < (1::int)
        \<and> isOccupied ?g (offsetPos (offsetPos origin 1 0) dx dz)"
    using occ by (intro exI [of _ 0]) simp
  have refused: "placeEntity ?g (offsetPos origin 1 0) 1 1 8 ''smelter'' 0 = (False, ?g)"
    using C2_placeEntity [of 1 1 ?g "offsetPos origin 1 0" 8 "''smelter''" 0 ?g,
        THEN conjunct1, THEN mp, OF ex] .
  have flat: "(2::int) \<le> 0 \<or> (0::int) \<le> 0"
    by simp
  have untouched: "placeEntity ?g origin 2 0 9 ''belt'' 0 = (True, ?g)"
    using C2_placeEntity [of 2 0 ?g origin 9 "''belt''" 0 ?g,
        THEN conjunct2, THEN conjunct2, THEN mp, OF flat, THEN conjunct1] .
  show ?thesis
    by (intro conjI fstok cellw blocked refused untouched)
qed

section \<open>Power networks\<close>

lemma balanceAll_nets:
  "fst (balanceAll dt nets w) = map (\<lambda>(k, n). (k, balanceNetwork dt n)) nets"
  by (induction nets arbitrary: w) (auto simp add: Let_def split_beta)

lemma update_networks:
  "networks (fst (PowerGridSystem_update s w dt))
     = map (\<lambda>(k, n). (k, balanceNetwork dt n)) (tallyNetworks w (networks s))"
  using balanceAll_nets [of dt "tallyNetworks w (networks s)" w]
  by (simp add: PowerGridSystem_update_def split_beta)

lemma update_lookup:
  "map_of (networks (fst (PowerGridSystem_update s w dt))) k
     = map_option (balanceNetwork dt) (map_of (tallyNetworks w (networks s)) k)"
  unfolding update_networks by (simp add: map_of_map)

lemma balanceNetwork_fields:
  "totalProduction (balanceNetwork dt net) = totalProduction net"
  "totalConsumption (balanceNetwork dt net) = totalConsumption net"
  "totalStorage (balanceNetwork dt net) = totalStorage net"
  "alienExtractorCount (balanceNetwork dt net) = alienExtractorCount net"
  "net_id (balanceNetwork dt net) = net_id net"
  by (simp_all add: balanceNetwork_def Let_def)

lemma balanceNetwork_effective:
  "effectiveProduction (balanceNetwork dt net)
     = totalProduction net
       + (totalProduction net - real (alienExtractorCount net) * ALIEN_ENERGY_BASE_MW)
         * ALIEN_ENERGY_BONUS * real (alienExtractorCount net)"
  by (simp add: balanceNetwork_def Let_def)

lemma balanceNetwork_surplus:
  assumes "0 \<le> effectiveProduction (balanceNetwork dt net) - totalConsumption net"
  shows "\<not> isBlackedOut (balanceNetwork dt net)"
    and "storedEnergy (balanceNetwork dt net)
      = min (storedEnergy net
             + (effectiveProduction (balanceNetwork dt net) - totalConsumption net) * (dt / 3600))
          (totalStorage net)"
  using assms [unfolded balanceNetwork_effective]
  by (simp_all add: balanceNetwork_def Let_def)

lemma balanceNetwork_covered:
  assumes "effectiveProduction (balanceNetwork dt net) - totalConsumption net < 0"
    and "\<bar>effectiveProduction (balanceNetwork dt net) - totalConsumption net\<bar> * (dt / 3600)
          \<le> storedEnergy net"
  shows "\<not> isBlackedOut (balanceNetwork dt net)"
    and "storedEnergy (balanceNetwork dt net)
      = storedEnergy net
        - \<bar>effectiveProduction (balanceNetwork dt net) - totalConsumption net\<bar> * (dt / 3600)"
  using assms [unfolded balanceNetwork_effective]
  by (simp_all add: balanceNetwork_def Let_def)

lemma balanceNetwork_blackout:
  assumes "effectiveProduction (balanceNetwork dt net) - totalConsumption net < 0"
    and "storedEnergy net
          < \<bar>effectiveProduction (balanceNetwork dt net) - totalConsumption net\<bar> * (dt / 3600)"
  shows "isBlackedOut (balanceNetwork dt net)"
    and "storedEnergy (balanceNetwork dt net) = 0"
  using assms [unfolded balanceNetwork_effective]
  by (simp_all add: balanceNetwork_def Let_def)

lemma tally_fold_lookup:
  "map_of (fold (\<lambda>eid nets. case map_of nets (nid eid) of
                    None \<Rightarrow> nets
                  | Some net \<Rightarrow> AList.update (nid eid) (upd eid net) nets) es nets) k
     = map_option (fold upd (filter (\<lambda>e. nid e = k) es)) (map_of nets k)"
proof (induction es arbitrary: nets)
  case Nil
  show ?case by (simp add: option.map_ident)
next
  case (Cons e es)
  let ?step = "\<lambda>eid nets. case map_of nets (nid eid) of
                    None \<Rightarrow> nets
                  | Some net \<Rightarrow> AList.update (nid eid) (upd eid net) nets"
  have one: "map_of (?step e nets) k
      = (if nid e = k then map_option (upd e) (map_of nets k) else map_of nets k)"
    by (cases "map_of nets (nid e)") (auto simp add: update_conv')
  have "map_of (fold ?step (e # es) nets) k
      = map_option (fold upd (filter (\<lambda>e. nid e = k) es)) (map_of (?step e nets) k)"
    using Cons.IH [of "?step e nets"] by simp
  also have "\<dots> = map_option (fold upd (filter (\<lambda>e. nid e = k) (e # es))) (map_of nets k)"
    unfolding one by (cases "map_of nets k") simp_all
  finally show ?case .
qed

lemma fold_generators:
  "fold (\<lambda>e net. net\<lparr>totalProduction := totalProduction net + p e\<rparr>) es net
     = net\<lparr>totalProduction := totalProduction net + sum_list (map p es)\<rparr>"
  by (induction es arbitrary: net) (simp_all add: add.assoc)

lemma fold_aliens:
  "fold (\<lambda>e net. net\<lparr>alienExtractorCount := alienExtractorCount net + 1,
                      totalProduction := totalProduction net + c\<rparr>) es net
     = net\<lparr>alienExtractorCount := alienExtractorCount net + length es,
            totalProduction := totalProduction net + real (length es) * c\<rparr>"
  by (induction es arbitrary: net) (simp_all add: algebra_simps)

lemma fold_aliens_Suc:
  "fold (\<lambda>e net. net\<lparr>alienExtractorCount := Suc (alienExtractorCount net),
                      totalProduction := totalProduction net + c\<rparr>) es net
     = net\<lparr>alienExtractorCount := alienExtractorCount net + length es,
            totalProduction := totalProduction net + real (length es) * c\<rparr>"
  using fold_aliens [of c es net] by simp

lemma fold_consumers:
  "fold (\<lambda>e net. net\<lparr>totalConsumption := totalConsumption net + p e\<rparr>) es net
     = net\<lparr>totalConsumption := totalConsumption net + sum_list (map p es)\<rparr>"
  by (induction es arbitrary: net) (simp_all add: add.assoc)

lemma fold_storages:
  "fold (\<lambda>e net. net\<lparr>totalStorage := totalStorage net + c e,
                      storedEnergy := storedEnergy net + q e\<rparr>) es net
     = net\<lparr>totalStorage := totalStorage net + sum_list (map c es),
            storedEnergy := storedEnergy net + sum_list (map q es)\<rparr>"
  by (induction es arbitrary: net) (simp_all add: add.assoc)

lemma resetStats_lookup:
  "map_of (resetStats nets) k
     = map_option (\<lambda>net. net\<lparr>totalProduction := 0, totalConsumption := 0, totalStorage := 0,
                             alienExtractorCount := 0\<rparr>) (map_of nets k)"
  by (simp add: resetStats_def map_of_map)

lemma tallyNetworks_lookup:
  "map_of (tallyNetworks w nets) k
     = map_option (\<lambda>net. net\<lparr>alienExtractorCount := alienCount w k,
                             totalProduction :=
                               genPower w k + real (alienCount w k) * ALIEN_ENERGY_BASE_MW,
                             totalConsumption := consPower w k,
                             totalStorage := storageCapacity w k,
                             storedEnergy := storedEnergy net + storageCharge w k\<rparr>)
         (map_of nets k)"
proof -
  have g: "tallyGenerator w = (\<lambda>eid nets. case map_of nets (PowerGenerator_networkId w eid) of
                    None \<Rightarrow> nets
                  | Some net \<Rightarrow> AList.update (PowerGenerator_networkId w eid)
                      ((\<lambda>e net. net\<lparr>totalProduction := totalProduction net
                            + PowerGenerator_currentPowerMW w e\<rparr>) eid net) nets)"
    by (simp add: fun_eq_iff tallyGenerator_def Let_def)
  have a: "tallyAlien w = (\<lambda>eid nets. case map_of nets (AlienExtractor_networkId w eid) of
                    None \<Rightarrow> nets
                  | Some net \<Rightarrow> AList.update (AlienExtractor_networkId w eid)
                      ((\<lambda>e net. net\<lparr>alienExtractorCount := alienExtractorCount net + 1,
                            totalProduction := totalProduction net + ALIEN_ENERGY_BASE_MW\<rparr>)
                        eid net) nets)"
    by (simp add: fun_eq_iff tallyAlien_def Let_def)
  have c: "tallyConsumer w = (\<lambda>eid nets. case map_of nets (PowerConsumer_networkId w eid) of
                    None \<Rightarrow> nets
                  | Some net \<Rightarrow> AList.update (PowerConsumer_networkId w eid)
                      ((\<lambda>e net. net\<lparr>totalConsumption := totalConsumption net
                            + PowerConsumer_currentPowerMW w e\<rparr>) eid net) nets)"
    by (simp add: fun_eq_iff tallyConsumer_def Let_def)
  have s: "tallyStorage w = (\<lambda>eid nets. case map_of nets (PowerStorage_networkId w eid) of
                    None \<Rightarrow> nets
                  | Some net \<Rightarrow> AList.update (PowerStorage_networkId w eid)
                      ((\<lambda>e net. net\<lparr>totalStorage := totalStorage net + PowerStorage_capacity w e,
                            storedEnergy := storedEnergy net + PowerStorage_stored w e\<rparr>)
                        eid net) nets)"
    by (simp add: fun_eq_iff tallyStorage_def Let_def)
  show ?thesis
    unfolding tallyNetworks_def
    apply (subst s, subst tally_fold_lookup)
    apply (subst c, subst tally_fold_lookup)
    apply (subst a, subst tally_fold_lookup)
    apply (subst g, subst tally_fold_lookup)
    apply (simp add: resetStats_lookup fold_generators fold_aliens_Suc fold_consumers fold_storages
        option.map_comp comp_def genPower_def alienCount_def consPower_def storageCapacity_def
        storageCharge_def)
    done
qed

text \<open>
  What one call of \<^verbatim>\<open>update\<close> does to a network \<open>k\<close> of the map, for every time step \<open>dt\<close>.
  Here \<open>net\<close> is the network as tallied in this call: its stored energy is the value the
  network held before the call plus the charge of its storage entities. With
  \<open>surplus = effectiveProduction - totalConsumption\<close>: if \<open>surplus \<ge> 0\<close> the network is not
  blacked out and its stored energy is the tallied one plus \<open>surplus * (dt / 3600)\<close>, clamped
  to \<open>totalStorage\<close>; if \<open>surplus < 0\<close>, with \<open>deficit = |surplus| * (dt / 3600)\<close>, a tallied
  energy of at least \<open>deficit\<close> is reduced by \<open>deficit\<close> and the network stays powered, and
  otherwise the stored energy becomes 0 and the blackout flag is set.
\<close>

lemma update_balances_tallied_energy:
  assumes "map_of (networks s) k = Some net0"
  shows "\<exists>net net'.
      map_of (tallyNetworks w (networks s)) k = Some net
    \<and> map_of (networks (fst (PowerGridSystem_update s w dt))) k = Some net'
    \<and> storedEnergy net = storedEnergy net0 + storageCharge w k
    \<and> totalConsumption net' = totalConsumption net
    \<and> totalStorage net' = totalStorage net
    \<and> (let surplus = effectiveProduction net' - totalConsumption net';
            deficit = \<bar>surplus\<bar> * (dt / 3600)
        in (0 \<le> surplus \<longrightarrow>
              \<not> isBlackedOut net'
              \<and> storedEnergy net'
                  = min (storedEnergy net + surplus * (dt / 3600)) (totalStorage net'))
         \<and> (surplus < 0 \<and> deficit \<le> storedEnergy net \<longrightarrow>
              \<not> isBlackedOut net' \<and> storedEnergy net' = storedEnergy net - deficit)
         \<and> (surplus < 0 \<and> storedEnergy net < deficit \<longrightarrow>
              isBlackedOut net' \<and> storedEnergy net' = 0))"
proof -
  obtain net where net: "map_of (tallyNetworks w (networks s)) k = Some net"
    and charge: "storedEnergy net = storedEnergy net0 + storageCharge w k"
    using assms by (simp add: tallyNetworks_lookup)
  let ?net' = "balanceNetwork dt net"
  have after: "map_of (networks (fst (PowerGridSystem_update s w dt))) k = Some ?net'"
    by (simp add: update_lookup net)
  have branches: "(let surplus = effectiveProduction ?net' - totalConsumption ?net';
            deficit = \<bar>surplus\<bar> * (dt / 3600)
        in (0 \<le> surplus \<longrightarrow>
              \<not> isBlackedOut ?net'
              \<and> storedEnergy ?net'
                  = min (storedEnergy net + surplus * (dt / 3600)) (totalStorage ?net'))
         \<and> (surplus < 0 \<and> deficit \<le> storedEnergy net \<longrightarrow>
              \<not> isBlackedOut ?net' \<and> storedEnergy ?net' = storedEnergy net - deficit)
         \<and> (surplus < 0 \<and> storedEnergy net < deficit \<longrightarrow>
              isBlackedOut ?net' \<and> storedEnergy ?net' = 0))"
    unfolding Let_def balanceNetwork_fields
    using balanceNetwork_surplus [of dt net] balanceNetwork_covered [of dt net]
      balanceNetwork_blackout [of dt net]
    by blast
  show ?thesis
    using net after charge branches balanceNetwork_fields(2,3) [of dt net] by blast
qed

lemma oneNetwork_lookup:
  "map_of (networks oneNetwork) 1
     = Some \<lparr>net_id = 1, totalProduction = 0, totalConsumption = 0, totalStorage = 0,
             storedEnergy = 0, alienExtractorCount = 0, effectiveProduction = 0,
             isBlackedOut = False, entities = {}\<rparr>"
  by (simp add: oneNetwork_def createNetwork_def new_PowerGridSystem_def Let_def)

lemma deficitWorld_sums:
  "genPower deficitWorld 1 = 100" "alienCount deficitWorld 1 = 0"
  "consPower deficitWorld 1 = 150" "storageCapacity deficitWorld 1 = 0"
  "storageCharge deficitWorld 1 = 0"
  by (simp_all add: genPower_def alienCount_def consPower_def storageCapacity_def
        storageCharge_def deficitWorld_def emptyWorld_def)

text \<open>
  A network without storage entities: 100 MW produced, 150 MW consumed, nothing stored and
  \<open>dt = 60\<close>. It ends the tick blacked out with stored energy 0.
\<close>

lemma deficit_without_storage:
  "\<exists>net'. map_of (networks (fst (PowerGridSystem_update oneNetwork deficitWorld 60))) 1 = Some net'
      \<and> effectiveProduction net' = 100 \<and> totalConsumption net' = 150
      \<and> isBlackedOut net' \<and> storedEnergy net' = 0"
proof -
  obtain net net' where
      net: "map_of (tallyNetworks deficitWorld (networks oneNetwork)) 1 = Some net"
    and after: "map_of (networks (fst (PowerGridSystem_update oneNetwork deficitWorld 60))) 1
        = Some net'"
    and br: "(let surplus = effectiveProduction net' - totalConsumption net';
            deficit = \<bar>surplus\<bar> * (60 / 3600)
        in (0 \<le> surplus \<longrightarrow>
              \<not> isBlackedOut net'
              \<and> storedEnergy net'
                  = min (storedEnergy net + surplus * (60 / 3600)) (totalStorage net'))
         \<and> (surplus < 0 \<and> deficit \<le> storedEnergy net \<longrightarrow>
              \<not> isBlackedOut net' \<and> storedEnergy net' = storedEnergy net - deficit)
         \<and> (surplus < 0 \<and> storedEnergy net < deficit \<longrightarrow>
              isBlackedOut net' \<and> storedEnergy net' = 0))"
    using update_balances_tallied_energy [OF oneNetwork_lookup, of deficitWorld 60] by blast
  have stored0: "storedEnergy net = 0"
    using net
    by (auto simp del: One_nat_def
          simp add: tallyNetworks_lookup oneNetwork_lookup deficitWorld_sums)
  have eff: "effectiveProduction net' = 100" and cons: "totalConsumption net' = 150"
    using after
    by (auto simp del: One_nat_def
          simp add: update_lookup tallyNetworks_lookup oneNetwork_lookup deficitWorld_sums
            balanceNetwork_effective balanceNetwork_fields)
  have "isBlackedOut net' \<and> storedEnergy net' = 0"
    using br unfolding Let_def eff cons stored0 by simp
  then show ?thesis
    using after eff cons by blast
qed

text \<open>
  C7. For every network \<open>k\<close> of the map, after \<^verbatim>\<open>update\<close> the bonus-producer count \<open>n\<close> is
  the number of alien extractors of the network, the total production is the generators'
  output plus 500 MW for each of them, and
  \<open>effectiveProduction = totalProduction + bonusFraction * baseProduction * n\<close> with
  \<open>bonusFraction = 0.3\<close> and \<open>baseProduction = totalProduction - n * 500\<close>: the bonus is
  linear in \<open>n\<close>. The witness has two generators (400 MW and 600 MW) and two extractors:
  total production 2000 MW, effective production 2600 MW.
\<close>

theorem C7_alien_bonus:
  assumes "map_of (networks s) k = Some net0"
  shows "\<exists>net'.
      map_of (networks (fst (PowerGridSystem_update s w dt))) k = Some net'
    \<and> alienExtractorCount net' = alienCount w k
    \<and> totalProduction net' = genPower w k + real (alienCount w k) * 500
    \<and> (let n = real (alienExtractorCount net');
            bonusFraction = 3 / 10;
            baseProduction = totalProduction net' - n * 500
        in effectiveProduction net' = totalProduction net' + bonusFraction * baseProduction * n)"
proof -
  obtain net where net: "map_of (tallyNetworks w (networks s)) k = Some net"
    and cnt: "alienExtractorCount net = alienCount w k"
    and prod: "totalProduction net = genPower w k + real (alienCount w k) * 500"
    using assms by (simp add: tallyNetworks_lookup ALIEN_ENERGY_BASE_MW_def)
  let ?net' = "balanceNetwork dt net"
  have after: "map_of (networks (fst (PowerGridSystem_update s w dt))) k = Some ?net'"
    by (simp add: update_lookup net)
  have eff: "(let n = real (alienExtractorCount ?net');
            bonusFraction = 3 / 10;
            baseProduction = totalProduction ?net' - n * 500
        in effectiveProduction ?net' = totalProduction ?net' + bonusFraction * baseProduction * n)"
    by (simp add: Let_def balanceNetwork_fields balanceNetwork_effective
          ALIEN_ENERGY_BASE_MW_def ALIEN_ENERGY_BONUS_def)
  show ?thesis
    using after cnt prod eff balanceNetwork_fields(1,4) [of dt net] by metis
qed

lemma alienWorld_sums:
  "genPower alienWorld 1 = 1000" "alienCount alienWorld 1 = 2"
  by (simp_all add: genPower_def alienCount_def alienWorld_def emptyWorld_def)

theorem C7_alien_bonus_witness:
  "\<exists>net'. map_of (networks (fst (PowerGridSystem_update oneNetwork alienWorld 1))) 1 = Some net'
      \<and> alienExtractorCount net' = 2 \<and> totalProduction net' = 2000
      \<and> effectiveProduction net' = 2600"
proof -
  obtain net' where
      after: "map_of (networks (fst (PowerGridSystem_update oneNetwork alienWorld 1))) 1
        = Some net'"
    and cnt: "alienExtractorCount net' = alienCount alienWorld 1"
    and prod: "totalProduction net' = genPower alienWorld 1 + real (alienCount alienWorld 1) * 500"
    and eff: "(let n = real (alienExtractorCount net');
            bonusFraction = 3 / 10;
            baseProduction = totalProduction net' - n * 500
        in effectiveProduction net' = totalProduction net' + bonusFraction * baseProduction * n)"
    using C7_alien_bonus [OF oneNetwork_lookup, of alienWorld 1] by blast
  have cnt2: "alienExtractorCount net' = 2" and prod2: "totalProduction net' = 2000"
    using cnt prod unfolding alienWorld_sums by simp_all
  have "effectiveProduction net' = 2600"
    using eff unfolding Let_def cnt2 prod2 by simp
  then show ?thesis
    using after cnt2 prod2 by blast
qed

text \<open>
  The stored energy of a network is not among the statistics that \<^verbatim>\<open>update\<close> resets, and
  the tally adds the charge of the storage entities to it. After a tick has written the
  network's charge back to its storage entities, the next tick counts that charge twice.
  A network with one storage entity (capacity 100 MWh, charge 80 MWh) and a consumer of
  3600 MW, ticked twice with \<open>dt = 1\<close>: the first tick leaves 79 MWh, in the network and in
  the entity.
\<close>

lemma tick1:
  "PowerGridSystem_update oneNetwork batteryWorld 1
     = (\<lparr>networks = [(1, \<lparr>net_id = 1, totalProduction = 0, totalConsumption = 3600,
            totalStorage = 100, storedEnergy = 79, alienExtractorCount = 0,
            effectiveProduction = 0, isBlackedOut = False, entities = {}\<rparr>)],
         nextNetworkId = 2\<rparr>,
        batteryWorld\<lparr>PowerStorage_stored := (\<lambda>_. 0)(5 := 79)\<rparr>)"
  by (simp add: PowerGridSystem_update_def tallyNetworks_def resetStats_def tallyGenerator_def
        tallyAlien_def tallyConsumer_def tallyStorage_def balanceNetwork_def
        updateStorageEntities_def oneNetwork_def createNetwork_def new_PowerGridSystem_def
        batteryWorld_def emptyWorld_def Let_def)

text \<open>
  C1. The claim is that a network whose stored energy covers the deficit of a tick stays
  powered and has its stored energy reduced by exactly the deficit, and that otherwise the
  stored energy becomes 0 and the network is blacked out. After the first tick of the
  network above, the network and its storage entity both hold 79 MWh.
  \<^item> A second tick with \<open>dt = 1\<close> has a deficit of 1 MWh, which the 79 MWh cover: the network
    stays powered, and its stored energy goes from 79 to \<open>79 + 79 - 1 = 157\<close> MWh, not to 78.
  \<^item> A second tick with \<open>dt = 100\<close> has a deficit of 100 MWh, which the 79 MWh do not
    cover: the network stays powered with \<open>79 + 79 - 100 = 58\<close> MWh, where the claim has it
    blacked out with 0.
  In both the deficit is taken from the sum of the value the network kept and the charge
  of the storage entity, which is that same value written back by the first tick.
\<close>

theorem C1_deficit_drawn_from_double_counted_storage:
  "map_option storedEnergy (map_of (networks (fst afterTick1)) 1) = Some 79
   \<and> storageCharge (snd afterTick1) 1 = 79
   \<and> consPower (snd afterTick1) 1 = 3600 \<and> genPower (snd afterTick1) 1 = 0
   \<and> map_option (\<lambda>net. (isBlackedOut net, storedEnergy net))
        (map_of (networks (fst (PowerGridSystem_update (fst afterTick1) (snd afterTick1) 1))) 1)
       = Some (False, 157)
   \<and> map_option (\<lambda>net. (isBlackedOut net, storedEnergy net))
        (map_of (networks (fst (PowerGridSystem_update (fst afterTick1) (snd afterTick1) 100))) 1)
       = Some (False, 58)"
  unfolding afterTick1_def tick1
  by (simp add: storageCharge_def consPower_def genPower_def)
     (simp add: PowerGridSystem_update_def tallyNetworks_def resetStats_def tallyGenerator_def
        tallyAlien_def tallyConsumer_def tallyStorage_def balanceNetwork_def
        updateStorageEntities_def batteryWorld_def emptyWorld_def Let_def)

text \<open>
  C3. The claim is that at the end of every \<^verbatim>\<open>update\<close> the stored energy of a network lies
  between 0 and its total storage. At the end of the second tick of the network above the
  stored energy is \<open>79 + 79 - 1 = 157\<close> MWh, with a total storage of 100 MWh.
\<close>

theorem C3_stored_energy_exceeds_capacity:
  "map_option (\<lambda>net. (storedEnergy net, totalStorage net))
      (map_of (networks (fst twoTicks)) 1) = Some (157, 100)"
  by (simp add: twoTicks_def tick1)
     (simp add: PowerGridSystem_update_def tallyNetworks_def resetStats_def tallyGenerator_def
        tallyAlien_def tallyConsumer_def tallyStorage_def balanceNetwork_def
        updateStorageEntities_def batteryWorld_def emptyWorld_def Let_def)

section \<open>Production cycles\<close>
















lemma processProducer_buffers:
  "buffers ps eid' = None \<Longrightarrow> buffers (fst (processProducer ps w eid dt)) eid' = None"
  by (auto simp add: processProducer_def getBuffer_def putBuffer_def Let_def split_beta
        split: option.splits)

lemma updateProducer_buffers:
  "buffers (fst st) eid' = None \<Longrightarrow> buffers (fst (updateProducer g dt eid st)) eid' = None"
  by (cases st) (simp add: updateProducer_def Let_def processProducer_buffers)

lemma fold_updateProducer_buffers:
  "buffers (fst st) eid' = None
     \<Longrightarrow> buffers (fst (fold (updateProducer g dt) es st)) eid' = None"
  by (induction es arbitrary: st) (simp_all add: updateProducer_buffers)

lemma no_buffer_is_ever_stored:
  assumes "buffers ps eid' = None"
  shows "buffers new_ProductionSystem eid' = None"
    and "buffers (registerRecipe ps k recipe) eid' = None"
    and "buffers (snd (addToInput ps eid i n)) eid' = None"
    and "buffers (snd (takeFromOutput ps eid i n)) eid' = None"
    and "buffers (removeEntity ps eid) eid' = None"
    and "buffers (fst (processProducer ps w eid dt)) eid' = None"
    and "buffers (fst (ProductionSystem_update ps w dt g)) eid' = None"
proof -
  show "buffers new_ProductionSystem eid' = None"
    by (simp add: new_ProductionSystem_def)
  show "buffers (registerRecipe ps k recipe) eid' = None"
    using assms by (simp add: registerRecipe_def)
  show "buffers (snd (addToInput ps eid i n)) eid' = None"
    using assms
    by (auto simp add: addToInput_def getBuffer_def putBuffer_def Let_def split: option.splits)
  show "buffers (snd (takeFromOutput ps eid i n)) eid' = None"
    using assms
    by (auto simp add: takeFromOutput_def getBuffer_def putBuffer_def Let_def
          split: option.splits)
  show "buffers (removeEntity ps eid) eid' = None"
    using assms by (simp add: removeEntity_def)
  show "buffers (fst (processProducer ps w eid dt)) eid' = None"
    using assms by (rule processProducer_buffers)
  show "buffers (fst (ProductionSystem_update ps w dt g)) eid' = None"
    using assms fold_updateProducer_buffers [of "(ps, w)" eid' g dt "activeProducerQuery w"]
    by (simp add: ProductionSystem_update_def)
qed












lemma processProducer_networkId:
  "PowerConsumer_networkId (snd (processProducer ps w eid dt)) = PowerConsumer_networkId w"
  by (simp add: processProducer_def Let_def setInactive_def split_beta split: option.splits)

lemma updateProducer_networkId:
  "PowerConsumer_networkId (snd (updateProducer g dt eid st)) = PowerConsumer_networkId (snd st)"
  by (cases st) (simp add: updateProducer_def Let_def processProducer_networkId)

lemma fold_updateProducer_networkId:
  "PowerConsumer_networkId (snd (fold (updateProducer g dt) es st))
     = PowerConsumer_networkId (snd st)"
  by (induction es arbitrary: st) (simp_all add: updateProducer_networkId)

lemma isEntityBlackedOut_unknown:
  "map_of (networks g) networkId = None \<Longrightarrow> \<not> isEntityBlackedOut g networkId"
  by (simp add: isEntityBlackedOut_def)

text \<open>
  C10. \<^verbatim>\<open>isEntityBlackedOut\<close> is \<^verbatim>\<open>false\<close> for a network id that is not in the map. Hence for
  a producer whose consumer component names such an id, the loop body of
  \<^verbatim>\<open>ProductionSystem.update\<close> is \<^verbatim>\<open>processProducer\<close>, whether or not the producer needs
  power, and so it is at the producer's turn in the loop over all producers.
\<close>

theorem C10_unknown_network_not_blacked_out:
  "(map_of (networks powerGrid) networkId = None \<longrightarrow> isEntityBlackedOut powerGrid networkId = False)
   \<and> (map_of (networks powerGrid) (PowerConsumer_networkId w eid) = None \<longrightarrow>
        updateProducer powerGrid dt eid (ps, w) = processProducer ps w eid dt)
   \<and> (activeProducerQuery w = pre @ eid # post
        \<and> map_of (networks powerGrid) (PowerConsumer_networkId w eid) = None \<longrightarrow>
        ProductionSystem_update ps w dt powerGrid
          = fold (updateProducer powerGrid dt) post
              (case fold (updateProducer powerGrid dt) pre (ps, w) of
                 (ps1, w1) \<Rightarrow> processProducer ps1 w1 eid dt))"
proof (intro conjI impI)
  assume "map_of (networks powerGrid) networkId = None"
  then show "isEntityBlackedOut powerGrid networkId = False"
    using isEntityBlackedOut_unknown by simp
next
  assume "map_of (networks powerGrid) (PowerConsumer_networkId w eid) = None"
  then show "updateProducer powerGrid dt eid (ps, w) = processProducer ps w eid dt"
    by (simp add: updateProducer_def isEntityBlackedOut_def)
next
  assume h: "activeProducerQuery w = pre @ eid # post
        \<and> map_of (networks powerGrid) (PowerConsumer_networkId w eid) = None"
  obtain ps1 w1 where mid: "fold (updateProducer powerGrid dt) pre (ps, w) = (ps1, w1)"
    by (cases "fold (updateProducer powerGrid dt) pre (ps, w)")
  have "PowerConsumer_networkId w1 = PowerConsumer_networkId w"
    using fold_updateProducer_networkId [of powerGrid dt pre "(ps, w)"] mid by simp
  then have "map_of (networks powerGrid) (PowerConsumer_networkId w1 eid) = None"
    using h by simp
  then have "updateProducer powerGrid dt eid (ps1, w1) = processProducer ps1 w1 eid dt"
    by (simp add: updateProducer_def isEntityBlackedOut_def)
  then show "ProductionSystem_update ps w dt powerGrid
          = fold (updateProducer powerGrid dt) post
              (case fold (updateProducer powerGrid dt) pre (ps, w) of
                 (ps1, w1) \<Rightarrow> processProducer ps1 w1 eid dt)"
    using h by (simp add: ProductionSystem_update_def mid)
qed

theorem C10_unknown_network_witness:
  "PowerConsumer_basePowerMW machineWorld 7 > 0
   \<and> map_of (networks oneNetwork) (PowerConsumer_networkId machineWorld 7) = None
   \<and> isEntityBlackedOut oneNetwork (PowerConsumer_networkId machineWorld 7) = False
   \<and> ProductionSystem_update (factory 5 0) machineWorld 1 oneNetwork
       = processProducer (factory 5 0) machineWorld 7 1"
proof -
  have unknown: "map_of (networks oneNetwork) (PowerConsumer_networkId machineWorld 7) = None"
    by (simp add: oneNetwork_def createNetwork_def new_PowerGridSystem_def Let_def
          machineWorld_def emptyWorld_def)
  have q: "activeProducerQuery machineWorld = [] @ 7 # []"
    by (simp add: machineWorld_def emptyWorld_def)
  note c10 = C10_unknown_network_not_blacked_out
    [of oneNetwork "PowerConsumer_networkId machineWorld 7" machineWorld 7 1 "factory 5 0" "[]" "[]"]
  have a: "isEntityBlackedOut oneNetwork (PowerConsumer_networkId machineWorld 7) = False"
    using c10 unknown by blast
  have b: "ProductionSystem_update (factory 5 0) machineWorld 1 oneNetwork
       = processProducer (factory 5 0) machineWorld 7 1"
    using c10 unknown q by simp
  have p: "PowerConsumer_basePowerMW machineWorld 7 > 0"
    by (simp add: machineWorld_def emptyWorld_def)
  show ?thesis
    using p unknown a b by blast
qed

section \<open>Undo and redo\<close>

lemma execute_success:
  assumes "fst (execute c w)"
  shows "CommandHistory_execute h w c
     = (True,
        \<lparr>undoStack = (if length (undoStack h) \<ge> maxHistory then tl (undoStack h @ [c])
                       else undoStack h @ [c]),
         redoStack = []\<rparr>,
        snd (execute c w))"
  using assms
  by (cases "execute c w") (auto simp add: CommandHistory_execute_def Let_def)

lemma execute_failure:
  assumes "\<not> fst (execute c w)"
  shows "CommandHistory_execute h w c = (False, h, snd (execute c w))"
  using assms
  by (cases "execute c w") (auto simp add: CommandHistory_execute_def)

lemma execute_top:
  assumes "CommandHistory_execute h w c = (True, h', w')"
  shows "undoStack h' \<noteq> [] \<and> last (undoStack h') = c \<and> redoStack h' = []"
proof -
  have ok: "fst (execute c w)"
    using assms by (cases "execute c w") (auto simp add: CommandHistory_execute_def split: if_splits)
  have h': "h' = \<lparr>undoStack = (if length (undoStack h) \<ge> maxHistory then tl (undoStack h @ [c])
                       else undoStack h @ [c]),
         redoStack = []\<rparr>"
    using assms execute_success [OF ok, of h] by simp
  show ?thesis
  proof (cases "length (undoStack h) \<ge> maxHistory")
    case True
    then have "undoStack h \<noteq> []" by (auto simp add: maxHistory_def)
    then show ?thesis using True h' by (simp add: last_tl)
  next
    case False
    then show ?thesis using h' by simp
  qed
qed

lemma undo_empty:
  "undoStack h = [] \<Longrightarrow> CommandHistory_undo h w = (False, h, w)"
  by (simp add: CommandHistory_undo_def)

lemma undo_nonempty:
  "undoStack h \<noteq> [] \<Longrightarrow>
   CommandHistory_undo h w
     = (True,
        \<lparr>undoStack = butlast (undoStack h), redoStack = redoStack h @ [last (undoStack h)]\<rparr>,
        undo (last (undoStack h)) w)"
  by (simp add: CommandHistory_undo_def Let_def)

lemma redo_success:
  assumes "redoStack h = rs @ [c]" "fst (execute c w)"
  shows "CommandHistory_redo h w
     = (True, \<lparr>undoStack = undoStack h @ [c], redoStack = rs\<rparr>, snd (execute c w))"
  using assms
  by (cases "execute c w") (auto simp add: CommandHistory_redo_def Let_def)

lemma redo_failure:
  assumes "redoStack h = rs @ [c]" "\<not> fst (execute c w)"
  shows "CommandHistory_redo h w
     = (False, \<lparr>undoStack = undoStack h, redoStack = rs\<rparr>, snd (execute c w))"
  using assms
  by (cases "execute c w") (auto simp add: CommandHistory_redo_def Let_def)

lemma undo_redo_restores:
  assumes ex: "CommandHistory_execute h1 w1 B = (True, h2, w2)"
    and re: "fst (execute B (undo B w2))"
  shows "CommandHistory_undo h2 w2
       = (True, \<lparr>undoStack = butlast (undoStack h2), redoStack = [B]\<rparr>, undo B w2)"
    and "CommandHistory_redo \<lparr>undoStack = butlast (undoStack h2), redoStack = [B]\<rparr> (undo B w2)
       = (True, h2, snd (execute B (undo B w2)))"
proof -
  have top: "undoStack h2 \<noteq> []" "last (undoStack h2) = B" "redoStack h2 = []"
    using execute_top [OF ex] by simp_all
  show "CommandHistory_undo h2 w2
       = (True, \<lparr>undoStack = butlast (undoStack h2), redoStack = [B]\<rparr>, undo B w2)"
    using undo_nonempty [OF top(1), of w2] top by simp
  let ?h3 = "\<lparr>undoStack = butlast (undoStack h2), redoStack = [B]\<rparr>"
  have r: "redoStack ?h3 = [] @ [B]" by simp
  have "CommandHistory_redo ?h3 (undo B w2)
      = (True, \<lparr>undoStack = undoStack ?h3 @ [B], redoStack = []\<rparr>, snd (execute B (undo B w2)))"
    using redo_success [OF r re] .
  moreover have "\<lparr>undoStack = undoStack ?h3 @ [B], redoStack = []\<rparr> = h2"
  proof -
    have "butlast (undoStack h2) @ [B] = undoStack h2"
      using top(1,2) append_butlast_last_id by metis
    then show ?thesis
      using top(3) by (cases h2) simp
  qed
  ultimately show "CommandHistory_redo ?h3 (undo B w2) = (True, h2, snd (execute B (undo B w2)))"
    by simp
qed

lemma execute_length:
  "length (undoStack (fst (snd (CommandHistory_execute h w c)))) \<le> Suc (length (undoStack h))"
  by (cases "execute c w") (auto simp add: CommandHistory_execute_def Let_def)

lemma executeAll_length:
  "length (undoStack (fst (executeAll cs (h, w)))) \<le> length (undoStack h) + length cs"
proof (induction cs arbitrary: h w)
  case Nil
  then show ?case by (simp add: executeAll_def)
next
  case (Cons c cs)
  obtain ok h1 w1 where step: "CommandHistory_execute h w c = (ok, h1, w1)"
    by (cases "CommandHistory_execute h w c") auto
  have "length (undoStack h1) \<le> Suc (length (undoStack h))"
    using execute_length [of h w c] step by simp
  moreover have "executeAll (c # cs) (h, w) = executeAll cs (h1, w1)"
    by (simp add: executeAll_def step)
  ultimately show ?case
    using Cons.IH [of h1 w1] by simp
qed

lemma undo_length:
  "length (undoStack (fst (snd (CommandHistory_undo h w)))) = length (undoStack h) - 1"
  by (simp add: CommandHistory_undo_def Let_def)

lemma undoTimes_length:
  "length (undoStack (fst (undoTimes n (h, w)))) = length (undoStack h) - n"
proof (induction n)
  case 0
  then show ?case by (simp add: undoTimes_def)
next
  case (Suc n)
  obtain h1 w1 where st: "undoTimes n (h, w) = (h1, w1)"
    by (cases "undoTimes n (h, w)")
  have "undoTimes (Suc n) (h, w) = snd (CommandHistory_undo h1 w1)"
    using st by (simp add: undoTimes_def)
  then show ?case
    using Suc.IH st undo_length [of h1 w1] by simp
qed

lemma extra_undo_noop:
  "CommandHistory_undo
      (fst (undoTimes (length cs + k) (executeAll cs (new_CommandHistory, w))))
      (snd (undoTimes (length cs + k) (executeAll cs (new_CommandHistory, w))))
    = (False,
       fst (undoTimes (length cs + k) (executeAll cs (new_CommandHistory, w))),
       snd (undoTimes (length cs + k) (executeAll cs (new_CommandHistory, w))))"
proof -
  obtain h1 w1 where ex: "executeAll cs (new_CommandHistory, w) = (h1, w1)"
    by (cases "executeAll cs (new_CommandHistory, w)")
  have "length (undoStack h1) \<le> length cs"
    using executeAll_length [of cs new_CommandHistory w] ex
    by (simp add: new_CommandHistory_def)
  then have "length (undoStack (fst (undoTimes (length cs + k) (h1, w1)))) = 0"
    using undoTimes_length [of "length cs + k" h1 w1] by simp
  then have "undoStack (fst (undoTimes (length cs + k) (h1, w1))) = []"
    by simp
  then show ?thesis
    unfolding ex by (rule undo_empty)
qed

lemma afterAB_undo_redo:
  assumes okB: "fst (execute B (snd (snd (CommandHistory_execute h w A))))"
    and re: "fst (execute B (undo B (snd (afterAB h w A B))))"
  shows "afterABUndoRedo h w A B
     = (fst (afterAB h w A B), snd (execute B (undo B (snd (afterAB h w A B)))))"
proof -
  obtain okA h1 w1 where a: "CommandHistory_execute h w A = (okA, h1, w1)"
    by (cases "CommandHistory_execute h w A") auto
  obtain h2 w2 where ab: "afterAB h w A B = (h2, w2)"
    by (cases "afterAB h w A B")
  have okB': "fst (execute B w1)"
    using okB a by simp
  have b: "CommandHistory_execute h1 w1 B = (True, h2, w2)"
    using ab a execute_success [OF okB', of h1] by (simp add: afterAB_def)
  have re': "fst (execute B (undo B w2))"
    using re ab by simp
  show ?thesis
    using undo_redo_restores [OF b re']
    by (simp add: afterABUndoRedo_def ab)
qed

text \<open>
  C5. For every command and every history:
  \<^item> \<^verbatim>\<open>execute\<close> of a command whose apply succeeds pushes it on the undo stack (dropping the
    oldest entry when the stack would exceed 100) and clears the redo stack; a command whose
    apply fails leaves the history as it was;
  \<^item> \<^verbatim>\<open>undo\<close> on an empty undo stack returns \<^verbatim>\<open>false\<close> and changes nothing; otherwise it
    pops the last command, reverts it and pushes it on the redo stack;
  \<^item> \<^verbatim>\<open>redo\<close> pops the last undone command and applies it again: on success it goes back
    on the undo stack, on failure it is on neither stack;
  \<^item> executing \<open>A\<close> then \<open>B\<close>, then \<^verbatim>\<open>undo\<close>, then \<^verbatim>\<open>redo\<close>: when \<open>B\<close> applied
    successfully and applies successfully again after its revert, the history is exactly
    the one after \<open>B\<close>, and the world is the one \<open>B\<close> produces from its reverted world
    (the world after \<open>B\<close> when revert followed by apply reproduces it). When the second
    application fails, \<open>B\<close> is dropped instead: the counterexample below;
  \<^item> starting from an empty history, after executing any commands \<open>cs\<close> and undoing as
    many times as there are commands, and \<open>k\<close> more times, a further \<^verbatim>\<open>undo\<close> returns
    \<^verbatim>\<open>false\<close> and changes nothing.
\<close>

theorem C5_command_history:
  "(fst (execute c w) \<longrightarrow>
      CommandHistory_execute h w c
        = (True,
           \<lparr>undoStack = (if length (undoStack h) \<ge> maxHistory then tl (undoStack h @ [c])
                          else undoStack h @ [c]),
            redoStack = []\<rparr>,
           snd (execute c w)))
   \<and> (\<not> fst (execute c w) \<longrightarrow>
        CommandHistory_execute h w c = (False, h, snd (execute c w)))
   \<and> (undoStack h = [] \<longrightarrow> CommandHistory_undo h w = (False, h, w))
   \<and> (undoStack h \<noteq> [] \<longrightarrow>
        CommandHistory_undo h w
          = (True,
             \<lparr>undoStack = butlast (undoStack h),
              redoStack = redoStack h @ [last (undoStack h)]\<rparr>,
             undo (last (undoStack h)) w))
   \<and> (redoStack h = [] \<longrightarrow> CommandHistory_redo h w = (False, h, w))
   \<and> (redoStack h = rs @ [c] \<and> fst (execute c w) \<longrightarrow>
        CommandHistory_redo h w
          = (True, \<lparr>undoStack = undoStack h @ [c], redoStack = rs\<rparr>, snd (execute c w)))
   \<and> (redoStack h = rs @ [c] \<and> \<not> fst (execute c w) \<longrightarrow>
        CommandHistory_redo h w
          = (False, \<lparr>undoStack = undoStack h, redoStack = rs\<rparr>, snd (execute c w)))
   \<and> (fst (execute B (snd (snd (CommandHistory_execute h w A))))
        \<and> fst (execute B (undo B (snd (afterAB h w A B)))) \<longrightarrow>
        afterABUndoRedo h w A B
          = (fst (afterAB h w A B), snd (execute B (undo B (snd (afterAB h w A B))))))
   \<and> (fst (execute B (snd (snd (CommandHistory_execute h w A))))
        \<and> execute B (undo B (snd (afterAB h w A B))) = (True, snd (afterAB h w A B)) \<longrightarrow>
        afterABUndoRedo h w A B = afterAB h w A B)
   \<and> CommandHistory_undo
        (fst (undoTimes (length cs + k) (executeAll cs (new_CommandHistory, w0))))
        (snd (undoTimes (length cs + k) (executeAll cs (new_CommandHistory, w0))))
      = (False,
         fst (undoTimes (length cs + k) (executeAll cs (new_CommandHistory, w0))),
         snd (undoTimes (length cs + k) (executeAll cs (new_CommandHistory, w0))))"
proof (intro conjI impI)
  assume "fst (execute c w)"
  then show "CommandHistory_execute h w c
        = (True,
           \<lparr>undoStack = (if length (undoStack h) \<ge> maxHistory then tl (undoStack h @ [c])
                          else undoStack h @ [c]),
            redoStack = []\<rparr>,
           snd (execute c w))"
    by (rule execute_success)
next
  assume "\<not> fst (execute c w)"
  then show "CommandHistory_execute h w c = (False, h, snd (execute c w))"
    by (rule execute_failure)
next
  assume "undoStack h = []"
  then show "CommandHistory_undo h w = (False, h, w)"
    by (rule undo_empty)
next
  assume "undoStack h \<noteq> []"
  then show "CommandHistory_undo h w
          = (True,
             \<lparr>undoStack = butlast (undoStack h),
              redoStack = redoStack h @ [last (undoStack h)]\<rparr>,
             undo (last (undoStack h)) w)"
    by (rule undo_nonempty)
next
  assume "redoStack h = []"
  then show "CommandHistory_redo h w = (False, h, w)"
    by (simp add: CommandHistory_redo_def)
next
  assume "redoStack h = rs @ [c] \<and> fst (execute c w)"
  then show "CommandHistory_redo h w
          = (True, \<lparr>undoStack = undoStack h @ [c], redoStack = rs\<rparr>, snd (execute c w))"
    using redo_success [of h rs c w] by simp
next
  assume "redoStack h = rs @ [c] \<and> \<not> fst (execute c w)"
  then show "CommandHistory_redo h w
          = (False, \<lparr>undoStack = undoStack h, redoStack = rs\<rparr>, snd (execute c w))"
    using redo_failure [of h rs c w] by simp
next
  assume "fst (execute B (snd (snd (CommandHistory_execute h w A))))
        \<and> fst (execute B (undo B (snd (afterAB h w A B))))"
  then show "afterABUndoRedo h w A B
          = (fst (afterAB h w A B), snd (execute B (undo B (snd (afterAB h w A B)))))"
    using afterAB_undo_redo [of B h w A] by simp
next
  assume a: "fst (execute B (snd (snd (CommandHistory_execute h w A))))
        \<and> execute B (undo B (snd (afterAB h w A B))) = (True, snd (afterAB h w A B))"
  then have "afterABUndoRedo h w A B
          = (fst (afterAB h w A B), snd (execute B (undo B (snd (afterAB h w A B)))))"
    using afterAB_undo_redo [of B h w A] by simp
  then show "afterABUndoRedo h w A B = afterAB h w A B"
    using a by simp
next
  show "CommandHistory_undo
        (fst (undoTimes (length cs + k) (executeAll cs (new_CommandHistory, w0))))
        (snd (undoTimes (length cs + k) (executeAll cs (new_CommandHistory, w0))))
      = (False,
         fst (undoTimes (length cs + k) (executeAll cs (new_CommandHistory, w0))),
         snd (undoTimes (length cs + k) (executeAll cs (new_CommandHistory, w0))))"
    by (rule extra_undo_noop)
qed

lemma build_steps:
  "CommandHistory_execute new_CommandHistory ({}, 2) (build 2)
     = (True, \<lparr>undoStack = [build 2], redoStack = []\<rparr>, ({2}, 1))"
  "CommandHistory_execute \<lparr>undoStack = [build 2], redoStack = []\<rparr> ({2}, 1) (build 3)
     = (True, \<lparr>undoStack = [build 2, build 3], redoStack = []\<rparr>, ({2, 3}, 0))"
  "CommandHistory_undo \<lparr>undoStack = [build 2, build 3], redoStack = []\<rparr> ({2, 3}, 0)
     = (True, \<lparr>undoStack = [build 2], redoStack = [build 3]\<rparr>, ({2}, 0))"
  "CommandHistory_redo \<lparr>undoStack = [build 2], redoStack = [build 3]\<rparr> ({2}, 0)
     = (False, \<lparr>undoStack = [build 2], redoStack = []\<rparr>, ({2}, 0))"
  by (auto simp add: CommandHistory_execute_def CommandHistory_undo_def CommandHistory_redo_def
        new_CommandHistory_def build_def maxHistory_def Let_def)

theorem C5_redo_failure_counterexample:
  "afterAB new_CommandHistory ({}, 2) (build 2) (build 3)
     = (\<lparr>undoStack = [build 2, build 3], redoStack = []\<rparr>, ({2, 3}, 0))
   \<and> afterABUndoRedo new_CommandHistory ({}, 2) (build 2) (build 3)
     = (\<lparr>undoStack = [build 2], redoStack = []\<rparr>, ({2}, 0))
   \<and> afterABUndoRedo new_CommandHistory ({}, 2) (build 2) (build 3)
     \<noteq> afterAB new_CommandHistory ({}, 2) (build 2) (build 3)"
proof -
  have ab: "afterAB new_CommandHistory ({}, 2) (build 2) (build 3)
     = (\<lparr>undoStack = [build 2, build 3], redoStack = []\<rparr>, ({2, 3}, 0))"
    by (simp del: One_nat_def add: afterAB_def build_steps)
  have fin: "afterABUndoRedo new_CommandHistory ({}, 2) (build 2) (build 3)
     = (\<lparr>undoStack = [build 2], redoStack = []\<rparr>, ({2}, 0))"
    by (simp del: One_nat_def add: afterABUndoRedo_def ab build_steps)
  show ?thesis
    unfolding ab fin by simp
qed

lemma refund_steps:
  "CommandHistory_execute new_CommandHistory ({}, 2) (buildRefund 2)
     = (True, \<lparr>undoStack = [buildRefund 2], redoStack = []\<rparr>, ({2}, 1))"
  "CommandHistory_execute \<lparr>undoStack = [buildRefund 2], redoStack = []\<rparr> ({2}, 1) (buildRefund 3)
     = (True, \<lparr>undoStack = [buildRefund 2, buildRefund 3], redoStack = []\<rparr>, ({2, 3}, 0))"
  "execute (buildRefund 3) ({2}, 1) = (True, ({2, 3}, 0))"
  "undo (buildRefund 3) ({2, 3}, 0) = ({2}, 1)"
  "execute (buildRefund 2) ({2}, 0) = (False, ({2}, 0))"
  by (auto simp add: CommandHistory_execute_def new_CommandHistory_def buildRefund_def
        maxHistory_def Let_def)

theorem C5_command_history_witness:
  "afterAB new_CommandHistory ({}, 2) (buildRefund 2) (buildRefund 3)
     = (\<lparr>undoStack = [buildRefund 2, buildRefund 3], redoStack = []\<rparr>, ({2, 3}, 0))
   \<and> afterABUndoRedo new_CommandHistory ({}, 2) (buildRefund 2) (buildRefund 3)
     = afterAB new_CommandHistory ({}, 2) (buildRefund 2) (buildRefund 3)
   \<and> CommandHistory_undo new_CommandHistory ({2::nat}, 0::nat)
     = (False, new_CommandHistory, ({2}, 0))
   \<and> CommandHistory_execute new_CommandHistory ({2}, 0) (buildRefund 2)
     = (False, new_CommandHistory, ({2}, 0))"
proof -
  note c5 = C5_command_history [where h = new_CommandHistory and w = "({2}, 0)"
      and c = "buildRefund 2" and A = "buildRefund 2" and B = "buildRefund 3"]
  note c5' = C5_command_history [where h = new_CommandHistory and w = "({}, 2)"
      and A = "buildRefund 2" and B = "buildRefund 3"]
  have ab: "afterAB new_CommandHistory ({}, 2) (buildRefund 2) (buildRefund 3)
     = (\<lparr>undoStack = [buildRefund 2, buildRefund 3], redoStack = []\<rparr>, ({2, 3}, 0))"
    by (simp del: One_nat_def add: afterAB_def refund_steps)
  have okB: "fst (execute (buildRefund 3)
      (snd (snd (CommandHistory_execute new_CommandHistory ({}, 2) (buildRefund 2)))))"
    by (simp del: One_nat_def add: refund_steps)
  have again: "execute (buildRefund 3)
      (undo (buildRefund 3) (snd (afterAB new_CommandHistory ({}, 2) (buildRefund 2) (buildRefund 3))))
      = (True, snd (afterAB new_CommandHistory ({}, 2) (buildRefund 2) (buildRefund 3)))"
    by (simp del: One_nat_def add: ab refund_steps)
  have restored: "afterABUndoRedo new_CommandHistory ({}, 2) (buildRefund 2) (buildRefund 3)
     = afterAB new_CommandHistory ({}, 2) (buildRefund 2) (buildRefund 3)"
    using c5' [THEN conjunct2, THEN conjunct2, THEN conjunct2, THEN conjunct2, THEN conjunct2,
        THEN conjunct2, THEN conjunct2, THEN conjunct2, THEN conjunct1, THEN mp,
        OF conjI [OF okB again]] .
  have empty: "undoStack (new_CommandHistory :: (nat set \<times> nat) CommandHistory) = []"
    by (simp add: new_CommandHistory_def)
  have noop: "CommandHistory_undo new_CommandHistory ({2}, 0)
      = (False, new_CommandHistory, ({2::nat}, 0::nat))"
    using c5 [THEN conjunct2, THEN conjunct2, THEN conjunct1, THEN mp, OF empty] .
  have fails: "\<not> fst (execute (buildRefund 2) ({2}, 0))"
    by (simp add: refund_steps)
  have kept: "CommandHistory_execute new_CommandHistory ({2}, 0) (buildRefund 2)
     = (False, new_CommandHistory, ({2}, 0))"
    using c5 [THEN conjunct2, THEN conjunct1, THEN mp, OF fails] by (simp add: refund_steps)
  show ?thesis
    by (intro conjI ab restored noop kept)
qed

section \<open>Saving and loading\<close>

lemma js_fmod_of_int: "js_fmod (of_int k) m = of_int (js_rem k m)"
proof -
  have fl: "\<lfloor>(of_int \<bar>k\<bar> :: real) / of_int \<bar>m\<bar>\<rfloor> = \<bar>k\<bar> div \<bar>m\<bar>"
    by (rule floor_divide_of_int_eq)
  have "(of_int \<bar>k\<bar> :: real) - of_int \<bar>m\<bar> * of_int (\<bar>k\<bar> div \<bar>m\<bar>)
      = of_int (\<bar>k\<bar> - \<bar>m\<bar> * (\<bar>k\<bar> div \<bar>m\<bar>))"
    by simp
  also have "\<dots> = of_int (\<bar>k\<bar> mod \<bar>m\<bar>)"
    by (simp add: minus_mult_div_eq_mod)
  finally have body: "(of_int \<bar>k\<bar> :: real) - of_int \<bar>m\<bar> * of_int (\<bar>k\<bar> div \<bar>m\<bar>)
      = of_int (\<bar>k\<bar> mod \<bar>m\<bar>)" .
  have sg: "sgn (of_int k :: real) = of_int (sgn k)"
    by (simp add: sgn_if)
  have ab: "\<bar>of_int k :: real\<bar> = of_int \<bar>k\<bar>"
    by simp
  show ?thesis
    unfolding js_fmod_def js_rem_def ab fl body sg by simp
qed

lemma slotAt_of_int:
  "slotAt (Num (of_int s)) i = Num (of_int (js_rem (s - i + MAX_SAVE_SLOTS) MAX_SAVE_SLOTS))"
proof -
  have "(of_int s :: real) + of_int (- i) + of_int MAX_SAVE_SLOTS
      = of_int (s - i + MAX_SAVE_SLOTS)"
    by simp
  then show ?thesis
    unfolding slotAt_def num_plus.simps num_rem.simps
    by (simp only: js_fmod_of_int)
qed

lemma nextSlot_of_int:
  "nextSlot (Num (of_int s)) = Num (of_int (js_rem (s + 1) MAX_SAVE_SLOTS))"
proof -
  have "(of_int s :: real) + of_int 1 = of_int (s + 1)"
    by simp
  then show ?thesis
    unfolding nextSlot_def num_plus.simps num_rem.simps
    by (simp only: js_fmod_of_int)
qed

lemma load_loop_find:
  "load_loop json a startSlot i =
     (case find (\<lambda>slot. tryLoadSlot json a slot \<noteq> None)
             (map (slotAt startSlot) [i..MAX_SAVE_SLOTS - 1]) of
        None \<Rightarrow> None
      | Some slot \<Rightarrow> map_option (\<lambda>data. (data, slot)) (tryLoadSlot json a slot))"
proof (induction json a startSlot i rule: load_loop.induct)
  case (1 json a startSlot i)
  show ?case
  proof (cases "i < MAX_SAVE_SLOTS")
    case False
    then have "[i..MAX_SAVE_SLOTS - 1] = []" by simp
    then show ?thesis
      using False by (simp add: load_loop.simps [of json a startSlot i])
  next
    case True
    let ?slot = "slotAt startSlot i"
    have up: "[i..MAX_SAVE_SLOTS - 1] = i # [i + 1..MAX_SAVE_SLOTS - 1]"
      using True by (simp add: upto_rec1)
    show ?thesis
    proof (cases "tryLoadSlot json a ?slot")
      case (Some data)
      then show ?thesis
        using True by (simp add: load_loop.simps [of json a startSlot i] up)
    next
      case None
      have "load_loop json a startSlot i = load_loop json a startSlot (i + 1)"
        using True None by (simp add: load_loop.simps [of json a startSlot i])
      then show ?thesis
        using "1.IH" [OF True refl None] None by (simp add: up)
    qed
  qed
qed

lemma load_find:
  assumes "adapter_load a ''save_meta'' = Inr metaJson"
  shows "load json sm a =
     Inr (case find (\<lambda>slot. tryLoadSlot json a slot \<noteq> None)
                (candidates (startSlotOf json metaJson)) of
            None \<Rightarrow> (None, sm)
          | Some slot \<Rightarrow> (tryLoadSlot json a slot, sm\<lparr>currentSlot := nextSlot slot\<rparr>))"
proof -
  let ?found = "find (\<lambda>slot. tryLoadSlot json a slot \<noteq> None)
      (candidates (startSlotOf json metaJson))"
  have loop: "load_loop json a (startSlotOf json metaJson) 0 =
     (case ?found of
        None \<Rightarrow> None
      | Some slot \<Rightarrow> map_option (\<lambda>data. (data, slot)) (tryLoadSlot json a slot))"
    unfolding load_loop_find candidates_def ..
  show ?thesis
  proof (cases ?found)
    case None
    then show ?thesis
      unfolding load_def assms sum.case loop by simp
  next
    case (Some slot)
    then have "tryLoadSlot json a slot \<noteq> None"
      unfolding find_Some_iff by blast
    then obtain data where "tryLoadSlot json a slot = Some data"
      by auto
    then show ?thesis
      unfolding load_def assms sum.case loop Some by simp
  qed
qed

lemma load_raises:
  "adapter_load a ''save_meta'' = Inl e \<Longrightarrow> load json sm a = Inl e"
  by (simp add: load_def)

lemma candidates_five: "candidates start = map (slotAt start) [0, 1, 2, 3, 4]"
  by (simp add: candidates_def MAX_SAVE_SLOTS_def upto_rec1)

lemma candidates_in_range:
  assumes "0 \<le> s" "s < MAX_SAVE_SLOTS"
  shows "candidates (Num (of_int s))
      = map (\<lambda>k. Num (of_int k)) [s, (s - 1) mod 5, (s - 2) mod 5, (s - 3) mod 5, (s - 4) mod 5]"
    and "set (candidates (Num (of_int s))) = (\<lambda>k. Num (of_int k)) ` {0, 1, 2, 3, 4}"
proof -
  have s5: "s \<in> {0, 1, 2, 3, 4}"
    using assms by (auto simp add: MAX_SAVE_SLOTS_def)
  show c: "candidates (Num (of_int s))
      = map (\<lambda>k. Num (of_int k)) [s, (s - 1) mod 5, (s - 2) mod 5, (s - 3) mod 5, (s - 4) mod 5]"
    unfolding candidates_five list.map slotAt_of_int using s5
    by (auto simp add: js_rem_def MAX_SAVE_SLOTS_def)
  show "set (candidates (Num (of_int s))) = (\<lambda>k. Num (of_int k)) ` {0, 1, 2, 3, 4}"
    unfolding c using s5 by auto
qed

lemma tryLoadSlot_Some_iff:
  "tryLoadSlot json a slot = Some data \<longleftrightarrow>
     (\<exists>text. adapter_load a (slotKey json slot) = Inr (Some text) \<and> text \<noteq> []
        \<and> parse json text = Some data
        \<and> checksum data = computeChecksum (stringify json (data\<lparr>checksum := []\<rparr>)))"
  by (auto simp add: tryLoadSlot_def Let_def split: option.splits if_splits sum.splits)

lemma startSlotOf_cases:
  "startSlotOf json None = Num 0"
  "m = [] \<or> parseMetaLastSlot json m = None \<Longrightarrow> startSlotOf json (Some m) = Num 0"
  "m \<noteq> [] \<Longrightarrow> parseMetaLastSlot json m = Some lastSlot \<Longrightarrow> startSlotOf json (Some m) = lastSlot"
  by (auto simp add: startSlotOf_def)

lemma isSlot_iff: "isSlot n \<longleftrightarrow> (\<exists>k. 0 \<le> k \<and> k < MAX_SAVE_SLOTS \<and> n = Num (of_int k))"
  by (auto simp add: isSlot_def MAX_SAVE_SLOTS_def)

lemma nextSlot_in_range:
  assumes "0 \<le> k" "k < MAX_SAVE_SLOTS"
  shows "nextSlot (Num (of_int k)) = Num (of_int ((k + 1) mod MAX_SAVE_SLOTS))"
  unfolding nextSlot_of_int using assms by (simp add: js_rem_def MAX_SAVE_SLOTS_def)

lemma isSlot_nextSlot: "isSlot n \<Longrightarrow> isSlot (nextSlot n)"
proof -
  assume "isSlot n"
  then obtain k where k: "0 \<le> k" "k < MAX_SAVE_SLOTS" "n = Num (of_int k)"
    unfolding isSlot_iff by blast
  have "nextSlot n = Num (of_int ((k + 1) mod MAX_SAVE_SLOTS))"
    using nextSlot_in_range [OF k(1,2)] k(3) by simp
  moreover have "0 \<le> (k + 1) mod MAX_SAVE_SLOTS \<and> (k + 1) mod MAX_SAVE_SLOTS < MAX_SAVE_SLOTS"
    by (simp add: MAX_SAVE_SLOTS_def)
  ultimately show ?thesis
    unfolding isSlot_iff by blast
qed

lemma isSlot_candidates:
  assumes "isSlot start" and "slot \<in> set (candidates start)"
  shows "isSlot slot"
proof -
  obtain s where s: "0 \<le> s" "s < MAX_SAVE_SLOTS" "start = Num (of_int s)"
    using assms(1) unfolding isSlot_iff by blast
  have "slot \<in> (\<lambda>k. Num (of_int k)) ` {0, 1, 2, 3, 4}"
    using assms(2) candidates_in_range(2) [OF s(1,2)] s(3) by simp
  then show ?thesis
    unfolding isSlot_iff by (auto simp add: MAX_SAVE_SLOTS_def)
qed

lemma save_pointer:
  "isSlot (currentSlot sm) \<Longrightarrow> isSlot (currentSlot (fst (snd (save json now sm a data))))"
  by (auto simp add: save_def Let_def isSlot_nextSlot split: sum.splits)

lemma save_records_pointer:
  assumes "fst (save json now sm a data) = Inr ()"
  shows "stored (snd (snd (save json now sm a data))) ''save_meta''
      = Some (stringifyMeta json (currentSlot sm) now MAX_SAVE_SLOTS)"
  using assms
  by (auto simp add: save_def Let_def adapter_save_def split: sum.splits if_splits)

lemma load_pointer:
  assumes meta: "adapter_load a ''save_meta'' = Inr metaJson"
    and start: "isSlot (startSlotOf json metaJson)"
    and ptr: "isSlot (currentSlot sm)"
    and res: "load json sm a = Inr (r, sm')"
  shows "isSlot (currentSlot sm')"
proof (cases "find (\<lambda>slot. tryLoadSlot json a slot \<noteq> None)
    (candidates (startSlotOf json metaJson))")
  case None
  then have "sm' = sm"
    using res unfolding load_find [OF meta] by simp
  then show ?thesis using ptr by simp
next
  case (Some slot)
  then have "slot \<in> set (candidates (startSlotOf json metaJson))"
    unfolding find_Some_iff by (metis nth_mem)
  then have "isSlot slot"
    using isSlot_candidates [OF start] by simp
  moreover have "sm' = sm\<lparr>currentSlot := nextSlot slot\<rparr>"
    using res unfolding load_find [OF meta] Some by simp
  ultimately show ?thesis
    by (simp add: isSlot_nextSlot)
qed

lemma load_fallback:
  assumes meta: "adapter_load a ''save_meta'' = Inr metaJson"
    and start: "startSlotOf json metaJson = Num (of_int s)"
    and range: "0 \<le> s" "s < MAX_SAVE_SLOTS"
    and newest: "tryLoadSlot json a (Num (of_int s)) = None"
    and older: "tryLoadSlot json a (Num (of_int ((s - 1) mod MAX_SAVE_SLOTS))) = Some data"
  shows "load json sm a = Inr (Some data, sm\<lparr>currentSlot := Num (of_int s)\<rparr>)"
proof -
  have c: "candidates (Num (of_int s))
      = Num (of_int s) # Num (of_int ((s - 1) mod MAX_SAVE_SLOTS))
          # map (\<lambda>k. Num (of_int k)) [(s - 2) mod 5, (s - 3) mod 5, (s - 4) mod 5]"
    using candidates_in_range(1) [OF range] by (simp add: MAX_SAVE_SLOTS_def)
  have r: "0 \<le> (s - 1) mod MAX_SAVE_SLOTS" "(s - 1) mod MAX_SAVE_SLOTS < MAX_SAVE_SLOTS"
    by (simp_all add: MAX_SAVE_SLOTS_def)
  have "((s - 1) mod MAX_SAVE_SLOTS + 1) mod MAX_SAVE_SLOTS = s"
    using range by (simp add: MAX_SAVE_SLOTS_def mod_simps)
  then have n: "nextSlot (Num (of_int ((s - 1) mod MAX_SAVE_SLOTS))) = Num (of_int s)"
    using nextSlot_in_range [OF r] by simp
  show ?thesis
    unfolding load_find [OF meta] start c using newest older by (simp add: n)
qed

lemma load_none:
  assumes "adapter_load a ''save_meta'' = Inr metaJson"
    and "\<forall>slot\<in>set (candidates (startSlotOf json metaJson)). tryLoadSlot json a slot = None"
  shows "load json sm a = Inr (None, sm)"
proof -
  have "find (\<lambda>slot. tryLoadSlot json a slot \<noteq> None)
      (candidates (startSlotOf json metaJson)) = None"
    using assms(2) by (simp add: find_None_iff)
  then show ?thesis
    unfolding load_find [OF assms(1)] by simp
qed

lemma slotKey_not_meta: "slotKey json slot \<noteq> ''save_meta''"
  by (simp add: slotKey_def)

lemma save_then_load:
  assumes rt: "parse json (stringify json (stamped json now data)) = Some (stamped json now data)"
    and ne: "stringify json (stamped json now data) \<noteq> []"
    and mrt: "parseMetaLastSlot json (stringifyMeta json (currentSlot sm) now MAX_SAVE_SLOTS)
        = Some (currentSlot sm)"
    and mne: "stringifyMeta json (currentSlot sm) now MAX_SAVE_SLOTS \<noteq> []"
    and slot: "isSlot (currentSlot sm)"
    and wr: "\<not> writeFails a (slotKey json (currentSlot sm))" "\<not> writeFails a ''save_meta''"
    and rd: "\<not> readFails a (slotKey json (currentSlot sm))" "\<not> readFails a ''save_meta''"
  shows "fst (save json now sm a data) = Inr ()"
    and "load json (fst (snd (save json now sm a data))) (snd (snd (save json now sm a data)))
     = Inr (Some (stamped json now data), fst (snd (save json now sm a data)))"
proof -
  let ?d = "stamped json now data"
  let ?key = "slotKey json (currentSlot sm)"
  let ?meta = "stringifyMeta json (currentSlot sm) now MAX_SAVE_SLOTS"
  let ?a' = "a\<lparr>stored := (stored a)(?key \<mapsto> stringify json ?d, ''save_meta'' \<mapsto> ?meta)\<rparr>"
  let ?sm' = "sm\<lparr>currentSlot := nextSlot (currentSlot sm)\<rparr>"
  have sv: "save json now sm a data = (Inr (), ?sm', ?a')"
    using wr by (simp add: save_def Let_def adapter_save_def stamped_def)
  show "fst (save json now sm a data) = Inr ()"
    by (simp add: sv)
  have store_slot: "adapter_load ?a' ?key = Inr (Some (stringify json ?d))"
    using rd slotKey_not_meta [of json "currentSlot sm"] by (simp add: adapter_load_def)
  have store_meta: "adapter_load ?a' ''save_meta'' = Inr (Some ?meta)"
    using rd by (simp add: adapter_load_def)
  have start: "startSlotOf json (Some ?meta) = currentSlot sm"
    using startSlotOf_cases(3) [OF mne mrt] .
  have cleared: "?d\<lparr>checksum := []\<rparr>
      = data\<lparr>version := SAVE_VERSION, save_timestamp := now, checksum := []\<rparr>"
    by (simp add: stamped_def)
  have valid: "tryLoadSlot json ?a' (currentSlot sm) = Some ?d"
    unfolding tryLoadSlot_Some_iff
    using store_slot ne rt by (simp add: cleared) (simp add: stamped_def)
  obtain k where k: "0 \<le> k" "k < MAX_SAVE_SLOTS" "currentSlot sm = Num (of_int k)"
    using slot unfolding isSlot_iff by blast
  have first: "candidates (currentSlot sm) = currentSlot sm # tl (candidates (currentSlot sm))"
    using candidates_in_range(1) [OF k(1,2)] k(3) by simp
  have "load json ?sm' ?a' = Inr (Some ?d, ?sm'\<lparr>currentSlot := nextSlot (currentSlot sm)\<rparr>)"
    unfolding load_find [OF store_meta] start
    by (subst first) (simp add: valid)
  then show "load json (fst (snd (save json now sm a data))) (snd (snd (save json now sm a data)))
     = Inr (Some ?d, fst (snd (save json now sm a data)))"
    by (simp add: sv)
qed

lemma hashInt_simps:
  "hashInt h [] = h"
  "hashInt h (c # cs) = hashInt ((31 * h + int (of_char c)) mod 4294967296) cs"
  by (simp_all add: hashInt_def)

lemma mod32: "(word_of_int (k mod 4294967296) :: 32 word) = word_of_int k"
proof -
  have "take_bit LENGTH(32) (k mod 4294967296) = take_bit LENGTH(32) k"
    by (simp add: take_bit_eq_mod)
  then show ?thesis
    by (rule word_of_int_eq_iff [THEN iffD2])
qed

lemma hash_step:
  "push_bit 5 (word_of_int h :: 32 word) - word_of_int h + of_nat n
     = word_of_int ((31 * h + int n) mod 4294967296)"
proof -
  have "push_bit 5 (word_of_int h :: 32 word) - word_of_int h + of_nat n
      = word_of_int (31 * h + int n)"
    by (simp add: push_bit_eq_mult)
  then show ?thesis
    by (simp only: mod32)
qed

lemma fold_hash:
  "foldl (\<lambda>hash c. (push_bit 5 hash - hash) + of_nat (of_char c)) (word_of_int h :: 32 word) cs
     = word_of_int (hashInt h cs)"
proof (induction cs arbitrary: h)
  case Nil
  show ?case by (simp add: hashInt_simps)
next
  case (Cons c cs)
  show ?case
    by (simp only: foldl_Cons hash_step Cons.IH hashInt_simps)
qed

lemma computeChecksum_hashInt:
  "computeChecksum data
     = js_toString 16 ((hashInt 0 data + 2147483648) mod 4294967296 - 2147483648)"
proof -
  have "foldl (\<lambda>hash c. (push_bit 5 hash - hash) + of_nat (of_char c)) (0 :: 32 word) data
      = word_of_int (hashInt 0 data)"
    using fold_hash [of 0 data] by simp
  then show ?thesis
    by (simp add: computeChecksum_def int_word_sint)
qed

lemma digitChar_table:
  "digitChar 0 = CHR ''0''" "digitChar 1 = CHR ''1''" "digitChar (Suc 0) = CHR ''1''"
  "digitChar 2 = CHR ''2''" "digitChar 3 = CHR ''3''" "digitChar 4 = CHR ''4''"
  "digitChar 5 = CHR ''5''" "digitChar 6 = CHR ''6''" "digitChar 7 = CHR ''7''"
  "digitChar 8 = CHR ''8''" "digitChar 9 = CHR ''9''" "digitChar 10 = CHR ''a''"
  "digitChar 11 = CHR ''b''" "digitChar 12 = CHR ''c''" "digitChar 13 = CHR ''d''"
  "digitChar 14 = CHR ''e''" "digitChar 15 = CHR ''f''"
  by code_simp+

lemma decimals:
  "js_toString 10 0 = ''0''" "js_toString 10 1 = ''1''" "js_toString 10 2 = ''2''"
  "js_toString 10 3 = ''3''" "js_toString 10 4 = ''4''" "js_toString 10 5 = ''5''"
  "js_toString 10 7 = ''7''" "js_toString 10 (- 1) = ''-1''" "js_toString 10 (- 2) = ''-2''"
  "js_toString 10 1000 = ''1000''" "js_toString 10 2000 = ''2000''"
  by (simp_all add: js_toString_def toDigits.simps digitChar_table)

lemma cleared_texts:
  \<open>snapshotText (firstSave\<lparr>checksum := []\<rparr>)
     = ''{"version":1,"timestamp":1000,"checksum":""'' @ emptyGameFields\<close>
  \<open>snapshotText (secondSave\<lparr>checksum := []\<rparr>)
     = ''{"version":1,"timestamp":2000,"checksum":""'' @ emptyGameFields\<close>
  by (simp_all add: snapshotText_def firstSave_def secondSave_def decimals)

lemma hashes:
  \<open>hashInt 0 (''{"version":1,"timestamp":1000,"checksum":""'' @ emptyGameFields) = 2729042568\<close>
  \<open>hashInt 0 (''{"version":1,"timestamp":2000,"checksum":""'' @ emptyGameFields) = 3892623753\<close>
  by (simp_all add: emptyGameFields_def hashInt_simps)

lemma checksums:
  "computeChecksum (snapshotText (firstSave\<lparr>checksum := []\<rparr>)) = ''-5d561d78''"
  "computeChecksum (snapshotText (secondSave\<lparr>checksum := []\<rparr>)) = ''-17fb4677''"
  unfolding cleared_texts computeChecksum_hashInt hashes
  by (simp_all add: js_toString_def toDigits.simps digitChar_table)

lemma floor_minus_one_real: "\<lfloor>- 1 :: real\<rfloor> = - 1"
  using floor_of_int [of "- 1", where ?'a = real] by simp

lemma slotKeys:
  "slotKey gameJSON (Num 0) = ''save_slot_0''" "slotKey gameJSON (Num 1) = ''save_slot_1''"
  "slotKey gameJSON (Num 2) = ''save_slot_2''" "slotKey gameJSON (Num 3) = ''save_slot_3''"
  "slotKey gameJSON (Num 4) = ''save_slot_4''" "slotKey gameJSON (Num 7) = ''save_slot_7''"
  "slotKey gameJSON (Num (- 1)) = ''save_slot_-1''"
  "slotKey gameJSON (Num (1 / 2)) = ''save_slot_0.5''"
  "slotKey gameJSON (Num (3 / 2)) = ''save_slot_1.5''"
  "slotKey gameJSON (Num (5 / 2)) = ''save_slot_2.5''"
  "slotKey gameJSON (Num (7 / 2)) = ''save_slot_3.5''"
  "slotKey gameJSON (Num (9 / 2)) = ''save_slot_4.5''"
  by (simp_all add: slotKey_def numberToString_def gameJSON_def halves_def decimals
        floor_minus_one_real)

lemma metaTexts:
  \<open>metaText (Num 0) 1000 MAX_SAVE_SLOTS = ''{"lastSlot":0,"lastTimestamp":1000,"slots":5}''\<close>
  \<open>metaText (Num 1) 2000 MAX_SAVE_SLOTS = ''{"lastSlot":1,"lastTimestamp":2000,"slots":5}''\<close>
  \<open>metaText (Num (- 2)) 1000 MAX_SAVE_SLOTS = ''{"lastSlot":-2,"lastTimestamp":1000,"slots":5}''\<close>
  \<open>metaText (Num 7) 1000 MAX_SAVE_SLOTS = ''{"lastSlot":7,"lastTimestamp":1000,"slots":5}''\<close>
  \<open>metaText (Num (3 / 2)) 1000 MAX_SAVE_SLOTS = ''{"lastSlot":1.5,"lastTimestamp":1000,"slots":5}''\<close>
  by (simp_all add: metaText_def numberToString_def halves_def decimals MAX_SAVE_SLOTS_def)

lemma parseMeta:
  \<open>parseMetaLastSlot gameJSON ''{"lastSlot":0,"lastTimestamp":1000,"slots":5}'' = Some (Num 0)\<close>
  \<open>parseMetaLastSlot gameJSON ''{"lastSlot":1,"lastTimestamp":2000,"slots":5}'' = Some (Num 1)\<close>
  \<open>parseMetaLastSlot gameJSON ''{"lastSlot":-2,"lastTimestamp":1000,"slots":5}'' = Some (Num (- 2))\<close>
  \<open>parseMetaLastSlot gameJSON ''{"lastSlot":7,"lastTimestamp":1000,"slots":5}'' = Some (Num 7)\<close>
  \<open>parseMetaLastSlot gameJSON ''{"lastSlot":1.5,"lastTimestamp":1000,"slots":5}'' = Some (Num (3 / 2))\<close>
  by (simp_all add: gameJSON_def metaTexts)

lemma snapshotTexts:
  \<open>snapshotText firstSave
     = ''{"version":1,"timestamp":1000,"checksum":"-5d561d78"'' @ emptyGameFields\<close>
  \<open>snapshotText secondSave
     = ''{"version":1,"timestamp":2000,"checksum":"-17fb4677"'' @ emptyGameFields\<close>
  \<open>snapshotText damagedSave
     = ''{"version":1,"timestamp":2000,"checksum":"-17fb4678"'' @ emptyGameFields\<close>
  by (simp_all add: snapshotText_def firstSave_def secondSave_def damagedSave_def decimals)

lemma parseSnapshots:
  "parse gameJSON (snapshotText firstSave) = Some firstSave"
  "parse gameJSON (snapshotText secondSave) = Some secondSave"
  "parse gameJSON (snapshotText damagedSave) = Some damagedSave"
  by (simp_all add: gameJSON_def snapshotTexts)

lemma stamped_saves:
  "stamped gameJSON 1000 blank = firstSave"
  "stamped gameJSON 2000 blank = secondSave"
proof -
  have c1: "blank\<lparr>version := SAVE_VERSION, save_timestamp := 1000, checksum := []\<rparr>
      = firstSave\<lparr>checksum := []\<rparr>"
    by (simp add: blank_def firstSave_def SAVE_VERSION_def)
  have c2: "blank\<lparr>version := SAVE_VERSION, save_timestamp := 2000, checksum := []\<rparr>
      = secondSave\<lparr>checksum := []\<rparr>"
    by (simp add: blank_def secondSave_def SAVE_VERSION_def)
  have s: "stringify gameJSON = snapshotText"
    by (simp add: gameJSON_def)
  show "stamped gameJSON 1000 blank = firstSave"
    unfolding stamped_def s c1 checksums
    by (simp add: blank_def firstSave_def SAVE_VERSION_def)
  show "stamped gameJSON 2000 blank = secondSave"
    unfolding stamped_def s c2 checksums
    by (simp add: blank_def secondSave_def SAVE_VERSION_def)
qed

lemma save_stamped:
  "save json now sm a data =
     (case adapter_save a (slotKey json (currentSlot sm)) (stringify json (stamped json now data)) of
        Inl e \<Rightarrow> (Inl e, sm, a)
      | Inr a1 \<Rightarrow>
          (case adapter_save a1 ''save_meta''
                  (stringifyMeta json (currentSlot sm) now MAX_SAVE_SLOTS) of
             Inl e \<Rightarrow> (Inl e, sm, a1)
           | Inr a2 \<Rightarrow> (Inr (), sm\<lparr>currentSlot := nextSlot (currentSlot sm)\<rparr>, a2)))"
  by (simp add: save_def stamped_def Let_def split: sum.splits)

lemma nextSlots:
  "nextSlot (Num 0) = Num 1" "nextSlot (Num 1) = Num 2"
  using nextSlot_of_int [of 0] nextSlot_of_int [of 1]
  by (simp_all add: js_rem_def MAX_SAVE_SLOTS_def)

lemma gameJSON_fields:
  "stringify gameJSON = snapshotText" "stringifyMeta gameJSON = metaText"
  by (simp_all add: gameJSON_def)

lemma afterTwoSaves_eq:
  "afterTwoSaves =
     (Inr (), \<lparr>currentSlot = Num 2\<rparr>,
      \<lparr>stored = Map.empty(''save_slot_0'' \<mapsto> snapshotText firstSave,
                            ''save_slot_1'' \<mapsto> snapshotText secondSave,
                            ''save_meta'' \<mapsto> metaText (Num 1) 2000 MAX_SAVE_SLOTS),
       readFails = (\<lambda>key. False), writeFails = (\<lambda>key. False)\<rparr>)"
proof -
  have one: "save gameJSON 1000 new_SaveManager emptyStorage blank =
     (Inr (), \<lparr>currentSlot = Num 1\<rparr>,
      \<lparr>stored = Map.empty(''save_slot_0'' \<mapsto> snapshotText firstSave,
                            ''save_meta'' \<mapsto> metaText (Num 0) 1000 MAX_SAVE_SLOTS),
       readFails = (\<lambda>key. False), writeFails = (\<lambda>key. False)\<rparr>)"
    by (simp add: save_stamped stamped_saves gameJSON_fields new_SaveManager_def emptyStorage_def
          adapter_save_def slotKeys nextSlots)
  show ?thesis
    unfolding afterTwoSaves_def one
    by (simp add: save_stamped stamped_saves gameJSON_fields adapter_save_def slotKeys nextSlots)
qed

lemma damagedStorage_reads:
  "adapter_load damagedStorage ''save_meta'' = Inr (Some (metaText (Num 1) 2000 MAX_SAVE_SLOTS))"
  "adapter_load damagedStorage ''save_slot_1'' = Inr (Some (snapshotText damagedSave))"
  "adapter_load damagedStorage ''save_slot_0'' = Inr (Some (snapshotText firstSave))"
  by (simp_all add: damagedStorage_def afterTwoSaves_eq adapter_load_def)

lemma nonempty_texts:
  "snapshotText d \<noteq> []" "metaText n t k \<noteq> []"
  by (simp_all add: snapshotText_def metaText_def)

lemma damaged_slots:
  "tryLoadSlot gameJSON damagedStorage (Num 1) = None"
  "tryLoadSlot gameJSON damagedStorage (Num 0) = Some firstSave"
proof -
  have cl: "damagedSave\<lparr>checksum := []\<rparr> = secondSave\<lparr>checksum := []\<rparr>"
    by (simp add: damagedSave_def)
  show "tryLoadSlot gameJSON damagedStorage (Num 1) = None"
    by (simp add: tryLoadSlot_def slotKeys damagedStorage_reads nonempty_texts parseSnapshots
          gameJSON_fields cl checksums Let_def)
       (simp add: damagedSave_def)
  show "tryLoadSlot gameJSON damagedStorage (Num 0) = Some firstSave"
    by (simp add: tryLoadSlot_def slotKeys damagedStorage_reads nonempty_texts parseSnapshots
          gameJSON_fields checksums Let_def)
       (simp add: firstSave_def)
qed

lemma damaged_start:
  "startSlotOf gameJSON (Some (metaText (Num 1) 2000 MAX_SAVE_SLOTS)) = Num 1"
  by (simp add: startSlotOf_def nonempty_texts) (simp add: metaTexts parseMeta)

lemma stray_candidates:
  "candidates (Num (- 2)) = [Num 3, Num 2, Num 1, Num 0, Num (- 1)]"
  "candidates (Num 7) = [Num 2, Num 1, Num 0, Num 4, Num 3]"
  "candidates (Num (3 / 2)) = [Num (3 / 2), Num (1 / 2), Num (9 / 2), Num (7 / 2), Num (5 / 2)]"
proof -
  show "candidates (Num (- 2)) = [Num 3, Num 2, Num 1, Num 0, Num (- 1)]"
    using slotAt_of_int [of "- 2"]
    by (simp add: candidates_five js_rem_def MAX_SAVE_SLOTS_def)
  show "candidates (Num 7) = [Num 2, Num 1, Num 0, Num 4, Num 3]"
    using slotAt_of_int [of 7]
    by (simp add: candidates_five js_rem_def MAX_SAVE_SLOTS_def)
  show "candidates (Num (3 / 2))
      = [Num (3 / 2), Num (1 / 2), Num (9 / 2), Num (7 / 2), Num (5 / 2)]"
    by (simp add: candidates_five slotAt_def js_fmod_def MAX_SAVE_SLOTS_def)
qed

lemma misfiled_reads:
  "adapter_load (misfiled key n) ''save_meta'' = Inr (Some (metaText n 1000 MAX_SAVE_SLOTS))"
  "adapter_load (misfiled key n) k
     = Inr (if k = ''save_meta'' then Some (metaText n 1000 MAX_SAVE_SLOTS)
            else if k = key then Some (snapshotText firstSave) else None)"
  by (simp_all add: misfiled_def adapter_load_def)

lemma misfiled_start:
  "startSlotOf gameJSON (Some (metaText (Num (- 2)) 1000 MAX_SAVE_SLOTS)) = Num (- 2)"
  "startSlotOf gameJSON (Some (metaText (Num 7) 1000 MAX_SAVE_SLOTS)) = Num 7"
  "startSlotOf gameJSON (Some (metaText (Num (3 / 2)) 1000 MAX_SAVE_SLOTS)) = Num (3 / 2)"
  by (simp_all add: startSlotOf_def nonempty_texts) (simp_all add: metaTexts parseMeta)

lemma misfiled_valid:
  assumes "slotKey gameJSON slot = key" and "key \<noteq> ''save_meta''"
  shows "tryLoadSlot gameJSON (misfiled key n) slot = Some firstSave"
  using assms
  by (simp add: tryLoadSlot_def misfiled_reads nonempty_texts parseSnapshots gameJSON_fields
        checksums Let_def)
     (simp add: firstSave_def)

lemma misfiled_absent:
  assumes "slotKey gameJSON slot \<noteq> key" and "slotKey gameJSON slot \<noteq> ''save_meta''"
  shows "tryLoadSlot gameJSON (misfiled key n) slot = None"
  using assms by (simp add: tryLoadSlot_def misfiled_reads)

text \<open>
  C6. When the read of the metadata succeeds, \<^verbatim>\<open>load\<close> returns the first slot that
  validates among the five candidates \<open>(startSlot - i + 5) % 5\<close>, \<open>i = 0, \<dots>, 4\<close>, and sets
  the slot pointer to the slot after it; when no candidate validates it returns \<^verbatim>\<open>null\<close>
  and leaves the pointer alone.
  \<^item> \<open>startSlot\<close> is the number recorded in the metadata, or 0 when the metadata is
    missing, empty or cannot be parsed.
  \<^item> For a recorded slot \<open>s\<close> in \<open>0, \<dots>, 4\<close> the candidates are \<open>s, s - 1, \<dots>\<close> backwards
    modulo 5: all five slots, each once; and the pointer after slot \<open>s\<close> is \<open>(s + 1) mod 5\<close>.
  \<^item> A slot validates exactly when its read succeeds with a non-empty text that parses to
    a record whose stored checksum equals the checksum recomputed over the record
    serialized with the checksum field cleared.
  \<^item> When the recorded slot does not validate and the slot before it does, \<^verbatim>\<open>load\<close> returns
    the record of the slot before it (the witness: two saves, then one character of the
    newer checksum changed).
  \<^item> With a serializer that \<open>parse\<close> inverts and a storage that does not fail, \<^verbatim>\<open>load\<close>
    after \<^verbatim>\<open>save\<close> returns the snapshot that \<^verbatim>\<open>save\<close> stamped and wrote, and the slot pointer
    stays where \<^verbatim>\<open>save\<close> left it.
  \<^item> A successful \<^verbatim>\<open>save\<close> records its slot pointer in the metadata. The pointer of a new
    manager is 0; \<^verbatim>\<open>save\<close> keeps a pointer in \<open>0, \<dots>, 4\<close> in that range, and so does \<^verbatim>\<open>load\<close>
    when the metadata records such a slot.
  The claim as it is worded fails on metadata that records a number that is not one of the
  five slots (the counterexample below: with \<open>-2\<close> recorded the candidates are
  \<open>3, 2, 1, 0, -1\<close> and a valid slot 4 is never read; with \<open>1.5\<close> recorded no slot is read;
  with 7 recorded the text under that number is never read), and when the read of the
  metadata is rejected: \<^verbatim>\<open>load\<close> then raises.
\<close>

theorem C6_load_newest_valid:
  "(adapter_load a ''save_meta'' = Inr metaJson \<longrightarrow>
      load json sm a =
        Inr (case find (\<lambda>slot. tryLoadSlot json a slot \<noteq> None)
                   (candidates (startSlotOf json metaJson)) of
               None \<Rightarrow> (None, sm)
             | Some slot \<Rightarrow> (tryLoadSlot json a slot, sm\<lparr>currentSlot := nextSlot slot\<rparr>)))
   \<and> candidates start = map (slotAt start) [0, 1, 2, 3, 4]
   \<and> startSlotOf json None = Num 0
   \<and> (m = [] \<or> parseMetaLastSlot json m = None \<longrightarrow> startSlotOf json (Some m) = Num 0)
   \<and> (m \<noteq> [] \<and> parseMetaLastSlot json m = Some lastSlot \<longrightarrow>
        startSlotOf json (Some m) = lastSlot)
   \<and> (0 \<le> s \<and> s < MAX_SAVE_SLOTS \<longrightarrow>
        candidates (Num (of_int s))
          = map (\<lambda>k. Num (of_int k))
              [s, (s - 1) mod 5, (s - 2) mod 5, (s - 3) mod 5, (s - 4) mod 5]
        \<and> set (candidates (Num (of_int s))) = (\<lambda>k. Num (of_int k)) ` {0, 1, 2, 3, 4}
        \<and> nextSlot (Num (of_int s)) = Num (of_int ((s + 1) mod 5)))
   \<and> (tryLoadSlot json a slot = Some data \<longleftrightarrow>
        (\<exists>text. adapter_load a (slotKey json slot) = Inr (Some text) \<and> text \<noteq> []
           \<and> parse json text = Some data
           \<and> checksum data = computeChecksum (stringify json (data\<lparr>checksum := []\<rparr>))))
   \<and> (adapter_load a ''save_meta'' = Inr metaJson
        \<and> startSlotOf json metaJson = Num (of_int s) \<and> 0 \<le> s \<and> s < MAX_SAVE_SLOTS
        \<and> tryLoadSlot json a (Num (of_int s)) = None
        \<and> tryLoadSlot json a (Num (of_int ((s - 1) mod MAX_SAVE_SLOTS))) = Some older \<longrightarrow>
        load json sm a = Inr (Some older, sm\<lparr>currentSlot := Num (of_int s)\<rparr>))
   \<and> (adapter_load a ''save_meta'' = Inr metaJson
        \<and> (\<forall>slot\<in>set (candidates (startSlotOf json metaJson)). tryLoadSlot json a slot = None)
        \<longrightarrow> load json sm a = Inr (None, sm))
   \<and> (parse json (stringify json (stamped json now new)) = Some (stamped json now new)
        \<and> stringify json (stamped json now new) \<noteq> []
        \<and> parseMetaLastSlot json (stringifyMeta json (currentSlot sm) now MAX_SAVE_SLOTS)
            = Some (currentSlot sm)
        \<and> stringifyMeta json (currentSlot sm) now MAX_SAVE_SLOTS \<noteq> []
        \<and> isSlot (currentSlot sm)
        \<and> \<not> writeFails a (slotKey json (currentSlot sm)) \<and> \<not> writeFails a ''save_meta''
        \<and> \<not> readFails a (slotKey json (currentSlot sm)) \<and> \<not> readFails a ''save_meta'' \<longrightarrow>
        fst (save json now sm a new) = Inr ()
        \<and> load json (fst (snd (save json now sm a new))) (snd (snd (save json now sm a new)))
            = Inr (Some (stamped json now new), fst (snd (save json now sm a new))))
   \<and> (isSlot (currentSlot sm) \<longrightarrow> isSlot (currentSlot (fst (snd (save json now sm a new)))))
   \<and> (adapter_load a ''save_meta'' = Inr metaJson \<and> isSlot (startSlotOf json metaJson)
        \<and> isSlot (currentSlot sm) \<and> load json sm a = Inr (r, sm') \<longrightarrow>
        isSlot (currentSlot sm'))
   \<and> isSlot (currentSlot new_SaveManager)
   \<and> (fst (save json now sm a new) = Inr () \<longrightarrow>
        stored (snd (snd (save json now sm a new))) ''save_meta''
          = Some (stringifyMeta json (currentSlot sm) now MAX_SAVE_SLOTS))"
proof (intro conjI impI)
  assume "adapter_load a ''save_meta'' = Inr metaJson"
  then show "load json sm a =
        Inr (case find (\<lambda>slot. tryLoadSlot json a slot \<noteq> None)
                   (candidates (startSlotOf json metaJson)) of
               None \<Rightarrow> (None, sm)
             | Some slot \<Rightarrow> (tryLoadSlot json a slot, sm\<lparr>currentSlot := nextSlot slot\<rparr>))"
    by (rule load_find)
next
  show "candidates start = map (slotAt start) [0, 1, 2, 3, 4]"
    by (rule candidates_five)
next
  show "startSlotOf json None = Num 0"
    by (rule startSlotOf_cases(1))
next
  assume "m = [] \<or> parseMetaLastSlot json m = None"
  then show "startSlotOf json (Some m) = Num 0"
    by (rule startSlotOf_cases(2))
next
  assume "m \<noteq> [] \<and> parseMetaLastSlot json m = Some lastSlot"
  then show "startSlotOf json (Some m) = lastSlot"
    using startSlotOf_cases(3) [of m json lastSlot] by simp
next
  assume r: "0 \<le> s \<and> s < MAX_SAVE_SLOTS"
  show "candidates (Num (of_int s))
          = map (\<lambda>k. Num (of_int k))
              [s, (s - 1) mod 5, (s - 2) mod 5, (s - 3) mod 5, (s - 4) mod 5]"
    using candidates_in_range(1) [of s] r by simp
  show "set (candidates (Num (of_int s))) = (\<lambda>k. Num (of_int k)) ` {0, 1, 2, 3, 4}"
    using candidates_in_range(2) [of s] r by simp
  show "nextSlot (Num (of_int s)) = Num (of_int ((s + 1) mod 5))"
    using nextSlot_in_range [of s] r by (simp add: MAX_SAVE_SLOTS_def)
next
  show "tryLoadSlot json a slot = Some data \<longleftrightarrow>
        (\<exists>text. adapter_load a (slotKey json slot) = Inr (Some text) \<and> text \<noteq> []
           \<and> parse json text = Some data
           \<and> checksum data = computeChecksum (stringify json (data\<lparr>checksum := []\<rparr>)))"
    by (rule tryLoadSlot_Some_iff)
next
  assume "adapter_load a ''save_meta'' = Inr metaJson
        \<and> startSlotOf json metaJson = Num (of_int s) \<and> 0 \<le> s \<and> s < MAX_SAVE_SLOTS
        \<and> tryLoadSlot json a (Num (of_int s)) = None
        \<and> tryLoadSlot json a (Num (of_int ((s - 1) mod MAX_SAVE_SLOTS))) = Some older"
  then show "load json sm a = Inr (Some older, sm\<lparr>currentSlot := Num (of_int s)\<rparr>)"
    using load_fallback [of a metaJson json s older sm] by simp
next
  assume "adapter_load a ''save_meta'' = Inr metaJson
        \<and> (\<forall>slot\<in>set (candidates (startSlotOf json metaJson)). tryLoadSlot json a slot = None)"
  then show "load json sm a = Inr (None, sm)"
    using load_none [of a metaJson json sm] by simp
next
  assume h: "parse json (stringify json (stamped json now new)) = Some (stamped json now new)
        \<and> stringify json (stamped json now new) \<noteq> []
        \<and> parseMetaLastSlot json (stringifyMeta json (currentSlot sm) now MAX_SAVE_SLOTS)
            = Some (currentSlot sm)
        \<and> stringifyMeta json (currentSlot sm) now MAX_SAVE_SLOTS \<noteq> []
        \<and> isSlot (currentSlot sm)
        \<and> \<not> writeFails a (slotKey json (currentSlot sm)) \<and> \<not> writeFails a ''save_meta''
        \<and> \<not> readFails a (slotKey json (currentSlot sm)) \<and> \<not> readFails a ''save_meta''"
  show "fst (save json now sm a new) = Inr ()"
    by (rule save_then_load(1)) (simp_all add: h)
  show "load json (fst (snd (save json now sm a new))) (snd (snd (save json now sm a new)))
            = Inr (Some (stamped json now new), fst (snd (save json now sm a new)))"
    by (rule save_then_load(2)) (simp_all add: h)
next
  assume "isSlot (currentSlot sm)"
  then show "isSlot (currentSlot (fst (snd (save json now sm a new))))"
    by (rule save_pointer)
next
  assume "adapter_load a ''save_meta'' = Inr metaJson \<and> isSlot (startSlotOf json metaJson)
        \<and> isSlot (currentSlot sm) \<and> load json sm a = Inr (r, sm')"
  then show "isSlot (currentSlot sm')"
    using load_pointer [of a metaJson json sm r sm'] by simp
next
  show "isSlot (currentSlot new_SaveManager)"
    by (simp add: isSlot_def new_SaveManager_def MAX_SAVE_SLOTS_def upto_rec1)
next
  assume "fst (save json now sm a new) = Inr ()"
  then show "stored (snd (snd (save json now sm a new))) ''save_meta''
          = Some (stringifyMeta json (currentSlot sm) now MAX_SAVE_SLOTS)"
    by (rule save_records_pointer)
qed

theorem C6_recorded_slot_counterexample:
  "tryLoadSlot gameJSON (misfiled ''save_slot_4'' (Num (- 2))) (Num 4) = Some firstSave
   \<and> candidates (Num (- 2)) = [Num 3, Num 2, Num 1, Num 0, Num (- 1)]
   \<and> load gameJSON new_SaveManager (misfiled ''save_slot_4'' (Num (- 2)))
       = Inr (None, new_SaveManager)
   \<and> tryLoadSlot gameJSON (misfiled ''save_slot_1'' (Num (3 / 2))) (Num 1) = Some firstSave
   \<and> candidates (Num (3 / 2)) = [Num (3 / 2), Num (1 / 2), Num (9 / 2), Num (7 / 2), Num (5 / 2)]
   \<and> load gameJSON new_SaveManager (misfiled ''save_slot_1'' (Num (3 / 2)))
       = Inr (None, new_SaveManager)
   \<and> tryLoadSlot gameJSON (misfiled ''save_slot_7'' (Num 7)) (Num 7) = Some firstSave
   \<and> candidates (Num 7) = [Num 2, Num 1, Num 0, Num 4, Num 3]
   \<and> load gameJSON new_SaveManager (misfiled ''save_slot_7'' (Num 7))
       = Inr (None, new_SaveManager)
   \<and> load gameJSON new_SaveManager unreadableMeta = Inl StorageError"
proof -
  have v4: "tryLoadSlot gameJSON (misfiled ''save_slot_4'' (Num (- 2))) (Num 4) = Some firstSave"
    by (rule misfiled_valid) (simp_all add: slotKeys)
  have l4: "load gameJSON new_SaveManager (misfiled ''save_slot_4'' (Num (- 2)))
       = Inr (None, new_SaveManager)"
    by (rule load_none [OF misfiled_reads(1)])
       (simp add: misfiled_start stray_candidates misfiled_absent slotKeys)
  have v1: "tryLoadSlot gameJSON (misfiled ''save_slot_1'' (Num (3 / 2))) (Num 1) = Some firstSave"
    by (rule misfiled_valid) (simp_all add: slotKeys)
  have l1: "load gameJSON new_SaveManager (misfiled ''save_slot_1'' (Num (3 / 2)))
       = Inr (None, new_SaveManager)"
    by (rule load_none [OF misfiled_reads(1)])
       (simp add: misfiled_start stray_candidates misfiled_absent slotKeys)
  have v7: "tryLoadSlot gameJSON (misfiled ''save_slot_7'' (Num 7)) (Num 7) = Some firstSave"
    by (rule misfiled_valid) (simp_all add: slotKeys)
  have l7: "load gameJSON new_SaveManager (misfiled ''save_slot_7'' (Num 7))
       = Inr (None, new_SaveManager)"
    by (rule load_none [OF misfiled_reads(1)])
       (simp add: misfiled_start stray_candidates misfiled_absent slotKeys)
  have raised: "load gameJSON new_SaveManager unreadableMeta = Inl StorageError"
    by (rule load_raises) (simp add: unreadableMeta_def emptyStorage_def adapter_load_def)
  show ?thesis
    by (intro conjI v4 l4 v1 l1 v7 l7 raised stray_candidates)
qed

theorem C6_load_newest_valid_witness:
  "fst afterTwoSaves = Inr ()
   \<and> tryLoadSlot gameJSON damagedStorage (Num 1) = None
   \<and> load gameJSON (fst (snd afterTwoSaves)) damagedStorage
       = Inr (Some firstSave, \<lparr>currentSlot = Num 1\<rparr>)
   \<and> fst (save gameJSON 1000 new_SaveManager emptyStorage blank) = Inr ()
   \<and> load gameJSON (fst (snd (save gameJSON 1000 new_SaveManager emptyStorage blank)))
        (snd (snd (save gameJSON 1000 new_SaveManager emptyStorage blank)))
       = Inr (Some firstSave, \<lparr>currentSlot = Num 1\<rparr>)"
proof -
  let ?meta = "Some (metaText (Num 1) 2000 MAX_SAVE_SLOTS)"
  note c6 = C6_load_newest_valid [where json = gameJSON and a = damagedStorage
      and metaJson = ?meta and s = 1 and sm = "fst (snd afterTwoSaves)" and older = firstSave]
  have h: "adapter_load damagedStorage ''save_meta'' = Inr ?meta
        \<and> startSlotOf gameJSON ?meta = Num (of_int 1) \<and> (0::int) \<le> 1 \<and> 1 < MAX_SAVE_SLOTS
        \<and> tryLoadSlot gameJSON damagedStorage (Num (of_int 1)) = None
        \<and> tryLoadSlot gameJSON damagedStorage (Num (of_int ((1 - 1) mod MAX_SAVE_SLOTS)))
            = Some firstSave"
  proof -
    have older: "Num (of_int ((1 - 1) mod MAX_SAVE_SLOTS)) = Num 0"
      by (simp add: MAX_SAVE_SLOTS_def)
    have "(1::int) < MAX_SAVE_SLOTS"
      by (simp add: MAX_SAVE_SLOTS_def)
    then show ?thesis
      unfolding older by (simp add: damagedStorage_reads damaged_start damaged_slots)
  qed
  have fallback: "load gameJSON (fst (snd afterTwoSaves)) damagedStorage
       = Inr (Some firstSave, (fst (snd afterTwoSaves))\<lparr>currentSlot := Num (of_int 1)\<rparr>)"
    using c6 [THEN conjunct2, THEN conjunct2, THEN conjunct2, THEN conjunct2, THEN conjunct2,
        THEN conjunct2, THEN conjunct2, THEN conjunct1, THEN mp, OF h] .
  have a: "fst afterTwoSaves = Inr ()"
    by (simp add: afterTwoSaves_eq)
  have b: "tryLoadSlot gameJSON damagedStorage (Num 1) = None"
    by (rule damaged_slots(1))
  have c: "load gameJSON (fst (snd afterTwoSaves)) damagedStorage
       = Inr (Some firstSave, \<lparr>currentSlot = Num 1\<rparr>)"
    using fallback by (simp add: afterTwoSaves_eq)
  note rt = C6_load_newest_valid [where json = gameJSON and a = emptyStorage
      and sm = new_SaveManager and now = 1000 and new = blank]
  have g: "parse gameJSON (stringify gameJSON (stamped gameJSON 1000 blank))
          = Some (stamped gameJSON 1000 blank)
        \<and> stringify gameJSON (stamped gameJSON 1000 blank) \<noteq> []
        \<and> parseMetaLastSlot gameJSON
             (stringifyMeta gameJSON (currentSlot new_SaveManager) 1000 MAX_SAVE_SLOTS)
            = Some (currentSlot new_SaveManager)
        \<and> stringifyMeta gameJSON (currentSlot new_SaveManager) 1000 MAX_SAVE_SLOTS \<noteq> []
        \<and> isSlot (currentSlot new_SaveManager)
        \<and> \<not> writeFails emptyStorage (slotKey gameJSON (currentSlot new_SaveManager))
        \<and> \<not> writeFails emptyStorage ''save_meta''
        \<and> \<not> readFails emptyStorage (slotKey gameJSON (currentSlot new_SaveManager))
        \<and> \<not> readFails emptyStorage ''save_meta''"
    by (simp add: stamped_saves gameJSON_fields parseSnapshots nonempty_texts new_SaveManager_def
          emptyStorage_def metaTexts parseMeta)
       (simp add: isSlot_def MAX_SAVE_SLOTS_def upto_rec1)
  note round = rt [THEN conjunct2, THEN conjunct2, THEN conjunct2, THEN conjunct2,
      THEN conjunct2, THEN conjunct2, THEN conjunct2, THEN conjunct2, THEN conjunct2,
      THEN conjunct1, THEN mp, OF g]
  have d: "fst (save gameJSON 1000 new_SaveManager emptyStorage blank) = Inr ()"
    using round by simp
  have ptr: "fst (snd (save gameJSON 1000 new_SaveManager emptyStorage blank))
      = \<lparr>currentSlot = Num 1\<rparr>"
    by (simp add: save_stamped adapter_save_def emptyStorage_def new_SaveManager_def nextSlots)
  have e: "load gameJSON (fst (snd (save gameJSON 1000 new_SaveManager emptyStorage blank)))
        (snd (snd (save gameJSON 1000 new_SaveManager emptyStorage blank)))
       = Inr (Some firstSave, \<lparr>currentSlot = Num 1\<rparr>)"
    using round [THEN conjunct2] by (simp add: stamped_saves ptr)
  show ?thesis
    by (intro conjI a b c d e)
qed

section \<open>Milestone deliveries\<close>





















end
